theory Spec2Isabelle
  imports Main "HOL-Library.Word"
begin

section \<open>JavaScript strings\<close>

text \<open>
  A JavaScript string is a sequence of UTF-16 code units. The regular expressions of
  \<^verbatim>\<open>src/main.ts\<close> carry no \<^verbatim>\<open>u\<close> flag, so they match code unit by code unit, and
  file names of this plugin are routinely outside Latin-1 (the user interface is Korean).
\<close>

type_synonym jschar = "16 word"
type_synonym jsstring = "jschar list"

definition js :: "string \<Rightarrow> jsstring" where
  \<comment> \<open>an ASCII literal as a JavaScript string\<close>
  "js s = map of_char s"

definition CHAR_FORWARD_SLASH :: jschar where "CHAR_FORWARD_SLASH = 0x2F"
definition CHAR_DOT :: jschar where "CHAR_DOT = 0x2E"
definition CHAR_HYPHEN :: jschar where "CHAR_HYPHEN = 0x2D"
definition CHAR_HASH :: jschar where "CHAR_HASH = 0x23"
definition CHAR_QUESTION :: jschar where "CHAR_QUESTION = 0x3F"
definition CHAR_T :: jschar where "CHAR_T = 0x54"

definition is_whitespace :: "jschar \<Rightarrow> bool" where
  \<comment> \<open>the class \<^verbatim>\<open>\s\<close> of ECMAScript: WhiteSpace (TAB, VT, FF, ZWNBSP and the code points of
      category Zs: SP, NBSP, U+1680, U+2000..U+200A, U+202F, U+205F, U+3000) and
      LineTerminator (LF, CR, U+2028, U+2029)\<close>
  "is_whitespace c \<longleftrightarrow>
     c \<in> set [0x09, 0x0A, 0x0B, 0x0C, 0x0D, 0x20, 0xA0, 0x1680, 0x2028, 0x2029, 0x202F,
              0x205F, 0x3000, 0xFEFF]
     \<or> (0x2000 \<le> c \<and> c \<le> 0x200A)"

definition is_disallowed :: "jschar \<Rightarrow> bool" where
  \<comment> \<open>the class \<^verbatim>\<open>[#?]\<close>\<close>
  "is_disallowed c \<longleftrightarrow> c = CHAR_HASH \<or> c = CHAR_QUESTION"

subsection \<open>\<^verbatim>\<open>String.prototype.replace\<close> with a global regular expression\<close>

text \<open>
  A matcher gives the length of the match of the pattern anchored at the head of the
  remaining input, 0 when the pattern does not match there. Neither pattern of the source
  matches the empty string. A global replace scans from the left: where the pattern
  matches, the replacement is emitted and the scan resumes after the match; elsewhere the
  code unit is copied.
\<close>

definition match_class :: "(jschar \<Rightarrow> bool) \<Rightarrow> jsstring \<Rightarrow> nat" where
  \<comment> \<open>a character class, as in \<^verbatim>\<open>/[#?]/\<close>: one code unit\<close>
  "match_class P s = (case s of [] \<Rightarrow> 0 | c # _ \<Rightarrow> if P c then 1 else 0)"

definition match_class_plus :: "(jschar \<Rightarrow> bool) \<Rightarrow> jsstring \<Rightarrow> nat" where
  \<comment> \<open>a class under the greedy \<^verbatim>\<open>+\<close>, as in \<^verbatim>\<open>/\s+/\<close>: as many code units as there are\<close>
  "match_class_plus P s = length (takeWhile P s)"

function replace_global :: "(jsstring \<Rightarrow> nat) \<Rightarrow> jsstring \<Rightarrow> jsstring \<Rightarrow> jsstring" where
  "replace_global m rep [] = []"
| "replace_global m rep (c # cs) =
     (if m (c # cs) = 0 then c # replace_global m rep cs
      else rep @ replace_global m rep (drop (m (c # cs)) (c # cs)))"
  by pat_completeness auto
termination
  by (relation "measure (\<lambda>(m, rep, s). length s)") auto

subsection \<open>\<^verbatim>\<open>String.prototype.slice\<close> and \<^verbatim>\<open>split\<close>\<close>

definition slice :: "jsstring \<Rightarrow> nat \<Rightarrow> nat \<Rightarrow> jsstring" where
  \<comment> \<open>\<^verbatim>\<open>s.slice(a, b)\<close> for indices within the string; empty when \<open>b \<le> a\<close>\<close>
  "slice s a b = take (b - a) (drop a s)"

definition split_first :: "jschar \<Rightarrow> jsstring \<Rightarrow> jsstring" where
  \<comment> \<open>\<^verbatim>\<open>s.split(sep)[0]\<close> for a separator of one code unit: what precedes the first
      occurrence of the separator, all of \<open>s\<close> when there is none\<close>
  "split_first sep s = takeWhile (\<lambda>c. c \<noteq> sep) s"

section \<open>Node's \<^verbatim>\<open>path.parse\<close>\<close>

text \<open>
  \<^verbatim>\<open>convertToJekyllFileName\<close> takes the \<^verbatim>\<open>name\<close> field of \<^verbatim>\<open>path.parse(fileName)\<close>. The
  function is Node's, not this repository's; the model follows the POSIX variant of
  \<^verbatim>\<open>lib/path.js\<close> variable by variable. It scans the path from its last code unit down to
  \<^verbatim>\<open>start\<close>, recording where the last path component begins (\<^verbatim>\<open>startPart\<close>) and ends
  (\<^verbatim>\<open>end\<close>), where its last dot is (\<^verbatim>\<open>startDot\<close>), and what stands left of that dot
  (\<^verbatim>\<open>preDotState\<close>: 0 nothing, -1 a code unit other than a dot leftmost, 1 a dot leftmost).
  The Windows variant differs only in what it takes for a separator and a drive prefix,
  which the name of a vault file does not contain.
\<close>

record parse_state =
  startDot :: int
  startPart :: nat
  endIdx :: int
  matchedSlash :: bool
  preDotState :: int

definition parse_init :: parse_state where
  "parse_init = \<lparr>startDot = -1, startPart = 0, endIdx = -1, matchedSlash = True, preDotState = 0\<rparr>"

fun parse_scan :: "jsstring \<Rightarrow> nat \<Rightarrow> nat \<Rightarrow> parse_state \<Rightarrow> parse_state" where
  \<comment> \<open>\<^verbatim>\<open>for (; i >= start; --i)\<close>; the third argument is \<open>i + 1\<close>\<close>
  "parse_scan path start 0 st = st"
| "parse_scan path start (Suc i) st =
     (if i < start then st
      else if path ! i = CHAR_FORWARD_SLASH then
        (if \<not> matchedSlash st then st\<lparr>startPart := i + 1\<rparr>
         else parse_scan path start i st)
      else
        let st1 = (if endIdx st = -1 then st\<lparr>matchedSlash := False, endIdx := int i + 1\<rparr>
                   else st);
            st2 = (if path ! i = CHAR_DOT then
                     (if startDot st1 = -1 then st1\<lparr>startDot := int i\<rparr>
                      else if preDotState st1 \<noteq> 1 then st1\<lparr>preDotState := 1\<rparr>
                      else st1)
                   else if startDot st1 \<noteq> -1 then st1\<lparr>preDotState := -1\<rparr>
                   else st1)
        in parse_scan path start i st2)"

definition path_parse_name :: "jsstring \<Rightarrow> jsstring" where
  \<comment> \<open>\<^verbatim>\<open>path.parse(path).name\<close>\<close>
  "path_parse_name path =
     (if path = [] then []
      else
        let isAbsolute = (path ! 0 = CHAR_FORWARD_SLASH);
            start = (if isAbsolute then 1 else 0);
            st = parse_scan path start (length path) parse_init
        in if endIdx st \<noteq> -1 then
             let start' = (if startPart st = 0 \<and> isAbsolute then 1 else startPart st)
             in if startDot st = -1 \<or> preDotState st = 0 \<or>
                   (preDotState st = 1 \<and> startDot st = endIdx st - 1 \<and>
                    startDot st = int (startPart st) + 1)
                then slice path start' (nat (endIdx st))
                else slice path start' (nat (startDot st))
           else [])"

section \<open>The date\<close>

text \<open>
  \<^verbatim>\<open>new Date()\<close> is the wall clock; \<^verbatim>\<open>toISOString\<close> prints its UTC calendar fields, which
  is all the transform reads of it. A date is modelled by these fields. A time value of
  ECMAScript lies within 100,000,000 days of the epoch, so the year runs from -271821 to
  275760, and \<^verbatim>\<open>toISOString\<close> prints a year outside 0..9999 in the expanded form: a sign
  and six digits.
\<close>

record js_date =
  utc_year :: int            \<comment> \<open>-271821..275760\<close>
  utc_month :: nat           \<comment> \<open>1..12, as printed (\<^verbatim>\<open>getUTCMonth() + 1\<close>)\<close>
  utc_day :: nat             \<comment> \<open>1..31\<close>
  utc_hours :: nat           \<comment> \<open>0..23\<close>
  utc_minutes :: nat         \<comment> \<open>0..59\<close>
  utc_seconds :: nat         \<comment> \<open>0..59\<close>
  utc_milliseconds :: nat    \<comment> \<open>0..999\<close>

definition digit :: "nat \<Rightarrow> jschar" where
  "digit n = of_nat (48 + n mod 10)"

fun pad :: "nat \<Rightarrow> nat \<Rightarrow> jsstring" where
  \<comment> \<open>the last \<open>k\<close> decimal digits of \<open>n\<close>, zero-padded\<close>
  "pad 0 n = []"
| "pad (Suc k) n = pad k (n div 10) @ [digit n]"

definition year_string :: "int \<Rightarrow> jsstring" where
  "year_string y =
     (if 0 \<le> y \<and> y \<le> 9999 then pad 4 (nat y)
      else (if y < 0 then js ''-'' else js ''+'') @ pad 6 (nat \<bar>y\<bar>))"

definition toISOString :: "js_date \<Rightarrow> jsstring" where
  "toISOString d =
     year_string (utc_year d) @ js ''-'' @ pad 2 (utc_month d) @ js ''-'' @ pad 2 (utc_day d)
     @ js ''T'' @ pad 2 (utc_hours d) @ js '':'' @ pad 2 (utc_minutes d) @ js '':''
     @ pad 2 (utc_seconds d) @ js ''.'' @ pad 3 (utc_milliseconds d) @ js ''Z''"

section \<open>The filename transform\<close>

definition iso_date :: "js_date \<Rightarrow> jsstring" where
  \<comment> \<open>\<^verbatim>\<open>toISOString().split('T')[0]\<close>\<close>
  "iso_date d = split_first CHAR_T (toISOString d)"

definition remove_disallowed :: "jsstring \<Rightarrow> jsstring" where
  \<comment> \<open>\<^verbatim>\<open>.replace(/[#?]/g, '')\<close>\<close>
  "remove_disallowed s = replace_global (match_class is_disallowed) [] s"

definition hyphenate_whitespace :: "jsstring \<Rightarrow> jsstring" where
  \<comment> \<open>\<^verbatim>\<open>.replace(/\s+/g, '-')\<close>\<close>
  "hyphenate_whitespace s = replace_global (match_class_plus is_whitespace) (js ''-'') s"

definition convertToJekyllFileName :: "js_date \<Rightarrow> jsstring \<Rightarrow> jsstring" where
  \<comment> \<open>the first argument is what \<^verbatim>\<open>new Date()\<close> returns at the call\<close>
  "convertToJekyllFileName now fileName =
     (let date = iso_date now;
          nameWithoutExtension = path_parse_name fileName;
          sanitizedTitle = hyphenate_whitespace (remove_disallowed nameWithoutExtension)
      in date @ js ''-'' @ sanitizedTitle @ js ''.md'')"

section \<open>Settings\<close>

record settings =
  projectFolders :: "jsstring list"
  showHiddenFolders :: bool
  convertToJekyllFormat :: bool

definition DEFAULT_SETTINGS :: settings where
  "DEFAULT_SETTINGS =
     \<lparr>projectFolders = [[]], showHiddenFolders = False, convertToJekyllFormat = False\<rparr>"

definition folder0 :: "settings \<Rightarrow> jsstring option" where
  \<comment> \<open>\<^verbatim>\<open>this.settings.projectFolders[0]\<close>; \<open>None\<close> is \<^verbatim>\<open>undefined\<close>, read off an empty array\<close>
  "folder0 s = (case projectFolders s of [] \<Rightarrow> None | p # _ \<Rightarrow> Some p)"

text \<open>
  \<^verbatim>\<open>loadSettings\<close> spreads the persisted object over the defaults: a field the persisted
  object has replaces the default, whatever its value.
\<close>

record saved_data =
  saved_projectFolders :: "jsstring list option"
  saved_showHiddenFolders :: "bool option"
  saved_convertToJekyllFormat :: "bool option"

definition loadSettings :: "saved_data option \<Rightarrow> settings" where
  "loadSettings loaded =
     (case loaded of
        None \<Rightarrow> DEFAULT_SETTINGS
      | Some d \<Rightarrow>
          \<lparr>projectFolders =
             (case saved_projectFolders d of None \<Rightarrow> projectFolders DEFAULT_SETTINGS
              | Some v \<Rightarrow> v),
           showHiddenFolders =
             (case saved_showHiddenFolders d of None \<Rightarrow> showHiddenFolders DEFAULT_SETTINGS
              | Some v \<Rightarrow> v),
           convertToJekyllFormat =
             (case saved_convertToJekyllFormat d of
                None \<Rightarrow> convertToJekyllFormat DEFAULT_SETTINGS
              | Some v \<Rightarrow> v)\<rparr>)"

subsection \<open>The settings tab\<close>

text \<open>
  The tab holds one local variable, \<^verbatim>\<open>newPath\<close>, the normalised content of the text field;
  \<^verbatim>\<open>display()\<close> rebuilds the tab and resets it to the empty string. \<^verbatim>\<open>saveSettings\<close>
  hands the settings object to the host and changes nothing in it.
\<close>

record tab_state =
  tab_settings :: settings
  newPath :: jsstring

definition trim :: "jsstring \<Rightarrow> jsstring" where
  \<comment> \<open>\<^verbatim>\<open>String.prototype.trim\<close>: white space and line terminators off both ends\<close>
  "trim s = rev (dropWhile is_whitespace (rev (dropWhile is_whitespace s)))"

definition indexOf :: "'a list \<Rightarrow> 'a option \<Rightarrow> int" where
  \<comment> \<open>\<^verbatim>\<open>Array.prototype.indexOf\<close>; the array holds strings, so \<^verbatim>\<open>undefined\<close> is not found\<close>
  "indexOf xs v =
     (case v of
        None \<Rightarrow> -1
      | Some y \<Rightarrow> if y \<in> set xs then int (length (takeWhile (\<lambda>x. x \<noteq> y) xs)) else -1)"

definition splice1 :: "'a list \<Rightarrow> nat \<Rightarrow> 'a list" where
  \<comment> \<open>\<^verbatim>\<open>xs.splice(index, 1)\<close>, the array afterwards\<close>
  "splice1 xs index = take index xs @ drop (index + 1) xs"

definition set_folder0 :: "jsstring \<Rightarrow> jsstring list \<Rightarrow> jsstring list" where
  \<comment> \<open>\<^verbatim>\<open>projectFolders[0] = value\<close>; the assignment extends an empty array\<close>
  "set_folder0 v xs = (case xs of [] \<Rightarrow> [v] | _ # rest \<Rightarrow> v # rest)"

datatype tab_action =
    SelectPath jsstring      \<comment> \<open>either dropdown changes\<close>
  | TypeNewPath jsstring     \<comment> \<open>the text field changes\<close>
  | ClickAdd
  | ClickDelete
  | ToggleHidden bool
  | ToggleJekyll bool

fun tab_step :: "tab_action \<Rightarrow> tab_state \<Rightarrow> tab_state" where
  "tab_step (SelectPath v) t =
     t\<lparr>tab_settings := (tab_settings t)
          \<lparr>projectFolders := set_folder0 v (projectFolders (tab_settings t))\<rparr>\<rparr>"
| "tab_step (TypeNewPath v) t =
     t\<lparr>newPath := replace_global (match_class_plus is_whitespace) (js '' '') (trim v)\<rparr>"
| "tab_step ClickAdd t =
     (if newPath t \<noteq> [] \<and> newPath t \<notin> set (projectFolders (tab_settings t))
      then \<lparr>tab_settings = (tab_settings t)
               \<lparr>projectFolders := projectFolders (tab_settings t) @ [newPath t]\<rparr>,
            newPath = []\<rparr>
      else t)"
| "tab_step ClickDelete t =
     (let index = indexOf (projectFolders (tab_settings t)) (folder0 (tab_settings t))
      in if index > -1
         then \<lparr>tab_settings = (tab_settings t)
                  \<lparr>projectFolders := splice1 (projectFolders (tab_settings t)) (nat index)\<rparr>,
               newPath = []\<rparr>
         else t)"
| "tab_step (ToggleHidden v) t =
     t\<lparr>tab_settings := (tab_settings t)\<lparr>showHiddenFolders := v\<rparr>\<rparr>"
| "tab_step (ToggleJekyll v) t =
     t\<lparr>tab_settings := (tab_settings t)\<lparr>convertToJekyllFormat := v\<rparr>\<rparr>"

definition tab_open :: "settings \<Rightarrow> tab_state" where
  "tab_open s = \<lparr>tab_settings = s, newPath = []\<rparr>"

definition tab_run :: "tab_action list \<Rightarrow> tab_state \<Rightarrow> tab_state" where
  "tab_run acts t = fold tab_step acts t"

section \<open>The collaborators: file system, vault, user interface\<close>

record js_error =
  err_code :: "jsstring option"  \<comment> \<open>the \<^verbatim>\<open>code\<close> of a Node system error, such as EACCES\<close>
  err_message :: jsstring

datatype entry = Dir | File jsstring

record tfile =
  file_path :: jsstring  \<comment> \<open>the path within the vault\<close>
  file_name :: jsstring  \<comment> \<open>the last component of it, extension included\<close>

text \<open>
  What the plugin shows (console, notices, modals) and the input and output it asks of the
  vault and the file system for a push are logged, in order.
\<close>

datatype event =
    ConsoleLog jsstring
  | VaultRead jsstring
  | FsWrite jsstring jsstring
  | NoticeShown jsstring
  | ModalOpened jsstring
  | Uncaught js_error

text \<open>
  The file system is a map from paths to entries. \<^verbatim>\<open>write_fault\<close> gives, for a path the
  operating system refuses to open for writing (permission, missing parent directory), the
  error it raises; a refused write leaves the entries as they are. \<^verbatim>\<open>vault\<close> is the host's \<^verbatim>\<open>vault.read\<close>, by vault path.
  \<^verbatim>\<open>path_resolve\<close> is Node's \<^verbatim>\<open>path.resolve\<close> at two arguments, which depends on the
  platform and the working directory; it throws a TypeError at an argument that is not a
  string.
\<close>

record world =
  fs_entries :: "jsstring \<rightharpoonup> entry"
  write_fault :: "jsstring \<rightharpoonup> js_error"
  vault :: "jsstring \<Rightarrow> js_error + jsstring"
  path_resolve :: "jsstring option \<Rightarrow> jsstring \<Rightarrow> js_error + jsstring"
  trace :: "event list"

definition log_event :: "event \<Rightarrow> world \<Rightarrow> world" where
  "log_event e w = w\<lparr>trace := trace w @ [e]\<rparr>"

definition new_events :: "world \<Rightarrow> world \<Rightarrow> event list" where
  \<comment> \<open>what a run from \<open>w\<close> to \<open>w'\<close> added to the log\<close>
  "new_events w w' = drop (length (trace w)) (trace w')"

subsection \<open>\<^verbatim>\<open>FileService\<close>\<close>

definition exists_path :: "jsstring option \<Rightarrow> world \<Rightarrow> bool" where
  \<comment> \<open>\<^verbatim>\<open>FileService.exists\<close>: \<^verbatim>\<open>fs.existsSync\<close> answers false at \<^verbatim>\<open>undefined\<close>\<close>
  "exists_path p w = (case p of None \<Rightarrow> False | Some q \<Rightarrow> fs_entries w q \<noteq> None)"

definition EISDIR :: "jsstring \<Rightarrow> js_error" where
  "EISDIR p =
     \<lparr>err_code = Some (js ''EISDIR''),
      err_message = js ''EISDIR: illegal operation on a directory, open '' @ [0x27] @ p @ [0x27]\<rparr>"

definition writeFile :: "jsstring \<Rightarrow> jsstring \<Rightarrow> world \<Rightarrow> (js_error + unit) \<times> world" where
  \<comment> \<open>\<^verbatim>\<open>FileService.writeFile\<close>: \<^verbatim>\<open>fs.writeFileSync\<close> creates the file or replaces its content\<close>
  "writeFile filePath data w =
     (let w1 = log_event (FsWrite filePath data) w
      in case write_fault w filePath of
           Some e \<Rightarrow> (Inl e, w1)
         | None \<Rightarrow>
             (case fs_entries w filePath of
                Some Dir \<Rightarrow> (Inl (EISDIR filePath), w1)
              | _ \<Rightarrow> (Inr (), w1\<lparr>fs_entries := (fs_entries w)(filePath \<mapsto> File data)\<rparr>)))"

definition vault_read :: "tfile \<Rightarrow> world \<Rightarrow> (js_error + jsstring) \<times> world" where
  \<comment> \<open>\<^verbatim>\<open>await this.app.vault.read(file)\<close>\<close>
  "vault_read file w = (vault w (file_path file), log_event (VaultRead (file_path file)) w)"

subsection \<open>Messages\<close>

text \<open>The texts of the source are Korean; they are given by their UTF-16 code units.\<close>

definition MISSING_FOLDER_TEXT :: jsstring where
  \<comment> \<open>line 256: the project folder does not exist; check the path or update the settings\<close>
  "MISSING_FOLDER_TEXT =
     [0xD504, 0xB85C, 0xC81D, 0xD2B8, 0x0020, 0xD3F4, 0xB354, 0xAC00, 0x0020, 0xC874, 0xC7AC,
      0xD558, 0xC9C0, 0x0020, 0xC54A, 0xC2B5, 0xB2C8, 0xB2E4, 0x002E, 0x0020, 0xACBD, 0xB85C,
      0xB97C, 0x0020, 0xD655, 0xC778, 0xD558, 0xAC70, 0xB098, 0x0020, 0xC124, 0xC815, 0xC744,
      0x0020, 0xC5C5, 0xB370, 0xC774, 0xD2B8, 0xD558, 0xC138, 0xC694, 0x002E]"

definition VALID_PATH_PREFIX :: jsstring where
  \<comment> \<open>line 218: valid path, colon, space\<close>
  "VALID_PATH_PREFIX = [0xC720, 0xD6A8, 0xD55C, 0x0020, 0xACBD, 0xB85C, 0x003A, 0x0020]"

definition PUSH_SUCCESS_PREFIX :: jsstring where
  \<comment> \<open>line 275: the file was pushed successfully, colon, space\<close>
  "PUSH_SUCCESS_PREFIX =
     [0xD30C, 0xC77C, 0xC774, 0x0020, 0xC131, 0xACF5, 0xC801, 0xC73C, 0xB85C, 0x0020, 0xD478,
      0xC2DC, 0xB418, 0xC5C8, 0xC2B5, 0xB2C8, 0xB2E4, 0x003A, 0x0020]"

definition PUSH_ERROR_PREFIX :: jsstring where
  \<comment> \<open>line 277: error during push, colon, space\<close>
  "PUSH_ERROR_PREFIX =
     [0xD478, 0xC2DC, 0x0020, 0xC911, 0x0020, 0xC624, 0xB958, 0x0020, 0xBC1C, 0xC0DD, 0x003A,
      0x0020]"

definition template :: "jsstring option \<Rightarrow> jsstring" where
  \<comment> \<open>a value inside a template literal\<close>
  "template v = (case v of None \<Rightarrow> js ''undefined'' | Some s \<Rightarrow> s)"

section \<open>The plugin\<close>

definition isProjectPathValid :: "settings \<Rightarrow> world \<Rightarrow> bool \<times> world" where
  "isProjectPathValid s w =
     (if \<not> exists_path (folder0 s) w
      then (False, log_event (ModalOpened MISSING_FOLDER_TEXT) w)
      else (True, w))"

definition push_target :: "settings \<Rightarrow> js_date \<Rightarrow> tfile \<Rightarrow> jsstring \<Rightarrow> world \<Rightarrow> js_error + jsstring" where
  \<comment> \<open>lines 269 to 272: the path \<^verbatim>\<open>pushFile\<close> writes to\<close>
  "push_target s now file targetPath w =
     (if convertToJekyllFormat s
      then path_resolve w (folder0 s) (convertToJekyllFileName now (file_name file))
      else Inr targetPath)"

definition caught :: "js_error \<Rightarrow> world \<Rightarrow> world" where
  \<comment> \<open>the \<^verbatim>\<open>catch\<close> block of \<^verbatim>\<open>pushFile\<close>\<close>
  "caught error w = log_event (NoticeShown (PUSH_ERROR_PREFIX @ err_message error)) w"

definition pushFile :: "settings \<Rightarrow> js_date \<Rightarrow> tfile \<Rightarrow> jsstring \<Rightarrow> world \<Rightarrow> world" where
  \<comment> \<open>the date is the clock at the call of \<^verbatim>\<open>convertToJekyllFileName\<close>; every \<open>Inl\<close> is an
      exception landing in the one \<^verbatim>\<open>catch\<close>\<close>
  "pushFile s now file targetPath w =
     (let w0 = log_event (ConsoleLog targetPath) w
      in case vault_read file w0 of
           (Inl error, w1) \<Rightarrow> caught error w1
         | (Inr fileContent, w1) \<Rightarrow>
             (case push_target s now file targetPath w1 of
                Inl error \<Rightarrow> caught error w1
              | Inr targetPath' \<Rightarrow>
                  (case writeFile targetPath' fileContent w1 of
                     (Inl error, w2) \<Rightarrow> caught error w2
                   | (Inr _, w2) \<Rightarrow>
                       log_event (NoticeShown (PUSH_SUCCESS_PREFIX @ targetPath')) w2)))"

definition validate_path_command :: "settings \<Rightarrow> world \<Rightarrow> world" where
  "validate_path_command s w =
     (case isProjectPathValid s w of
        (False, w1) \<Rightarrow> w1
      | (True, w1) \<Rightarrow> log_event (NoticeShown (VALID_PATH_PREFIX @ template (folder0 s))) w1)"

definition file_menu_push :: "settings \<Rightarrow> js_date \<Rightarrow> tfile \<Rightarrow> world \<Rightarrow> world" where
  \<comment> \<open>the file-menu item; \<^verbatim>\<open>path.resolve\<close> is outside any \<^verbatim>\<open>try\<close> here\<close>
  "file_menu_push s now file w =
     (case isProjectPathValid s w of
        (False, w1) \<Rightarrow> w1
      | (True, w1) \<Rightarrow>
          (case path_resolve w1 (folder0 s) (file_name file) of
             Inl error \<Rightarrow> log_event (Uncaught error) w1
           | Inr targetPath \<Rightarrow> pushFile s now file targetPath w1))"

definition push_md_command :: "settings \<Rightarrow> js_date \<Rightarrow> tfile option \<Rightarrow> world \<Rightarrow> world" where
  \<comment> \<open>the command \<^verbatim>\<open>push-md\<close>; the argument is \<^verbatim>\<open>view.file\<close>\<close>
  "push_md_command s now view_file w =
     (case isProjectPathValid s w of
        (False, w1) \<Rightarrow> w1
      | (True, w1) \<Rightarrow>
          (case view_file of
             None \<Rightarrow> w1
           | Some file \<Rightarrow>
               (case path_resolve w1 (folder0 s) (file_name file) of
                  Inl error \<Rightarrow> log_event (Uncaught error) w1
                | Inr targetPath \<Rightarrow> pushFile s now file targetPath w1)))"

definition written_paths :: "event list \<Rightarrow> jsstring list" where
  "written_paths es = concat (map (\<lambda>e. case e of FsWrite p _ \<Rightarrow> [p] | _ \<Rightarrow> []) es)"

definition notices :: "event list \<Rightarrow> jsstring list" where
  "notices es = concat (map (\<lambda>e. case e of NoticeShown m \<Rightarrow> [m] | _ \<Rightarrow> []) es)"

section \<open>The transform as the specification words it\<close>

text \<open>
  The specification describes the dated transform by its effect: the extension is
  stripped, every occurrence of the two disallowed characters is removed, every maximal
  run of white space becomes one hyphen, and the date is printed as a year of four digits,
  a month and a day of two. The definitions \<open>spec_remove_disallowed\<close>,
  \<open>spec_collapse_whitespace\<close>, \<open>spec_date\<close> and \<open>spec_title\<close> follow its words, to be
  compared with the code's. \<open>expanded_date\<close> is the form ECMAScript gives a year that four
  digits do not hold, and \<open>strip_extension\<close> says what an extension is to \<^verbatim>\<open>path.parse\<close>.
\<close>

definition spec_remove_disallowed :: "jsstring \<Rightarrow> jsstring" where
  "spec_remove_disallowed s = removeAll CHAR_QUESTION (removeAll CHAR_HASH s)"

primrec runs :: "('a \<Rightarrow> bool) \<Rightarrow> 'a list \<Rightarrow> 'a list list" where
  \<comment> \<open>the maximal runs of a list: blocks of neighbours that agree on \<open>P\<close>\<close>
  "runs P [] = []"
| "runs P (x # xs) =
     (case runs P xs of
        [] \<Rightarrow> [[x]]
      | r # rs \<Rightarrow> if P x = P (hd r) then (x # r) # rs else [x] # r # rs)"

definition collapse_runs :: "('a \<Rightarrow> bool) \<Rightarrow> 'a list \<Rightarrow> 'a list \<Rightarrow> 'a list" where
  \<comment> \<open>every maximal run of elements satisfying \<open>P\<close> replaced by \<open>rep\<close>\<close>
  "collapse_runs P rep s = concat (map (\<lambda>r. if P (hd r) then rep else r) (runs P s))"

definition spec_collapse_whitespace :: "jsstring \<Rightarrow> jsstring" where
  "spec_collapse_whitespace s = collapse_runs is_whitespace [CHAR_HYPHEN] s"

definition spec_date :: "js_date \<Rightarrow> jsstring" where
  \<comment> \<open>YYYY-MM-DD\<close>
  "spec_date d =
     pad 4 (nat (utc_year d)) @ [CHAR_HYPHEN] @ pad 2 (utc_month d) @ [CHAR_HYPHEN]
     @ pad 2 (utc_day d)"

definition expanded_date :: "js_date \<Rightarrow> jsstring" where
  \<comment> \<open>the expanded form of ECMAScript: a sign and a year of six digits\<close>
  "expanded_date d =
     (if utc_year d < 0 then js ''-'' else js ''+'') @ pad 6 (nat \<bar>utc_year d\<bar>)
     @ [CHAR_HYPHEN] @ pad 2 (utc_month d) @ [CHAR_HYPHEN] @ pad 2 (utc_day d)"

definition strip_extension :: "jsstring \<Rightarrow> jsstring" where
  \<comment> \<open>a plain file name without its extension: what precedes the last dot; a name whose
      only dot is its first code unit, and the name \<^verbatim>\<open>..\<close>, have no extension\<close>
  "strip_extension p =
     (if CHAR_DOT \<in> set (tl p) \<and> p \<noteq> [CHAR_DOT, CHAR_DOT]
      then rev (tl (dropWhile (\<lambda>c. c \<noteq> CHAR_DOT) (rev p)))
      else p)"

definition spec_title :: "jsstring \<Rightarrow> jsstring" where
  "spec_title sourceName =
     spec_collapse_whitespace (spec_remove_disallowed (path_parse_name sourceName))"

definition is_digit :: "jschar \<Rightarrow> bool" where
  "is_digit c \<longleftrightarrow> c \<in> set [0x30, 0x31, 0x32, 0x33, 0x34, 0x35, 0x36, 0x37, 0x38, 0x39]"

definition date_char :: "jschar \<Rightarrow> bool" where
  \<comment> \<open>a digit, a hyphen or a plus sign\<close>
  "date_char c \<longleftrightarrow> is_digit c \<or> c = 0x2D \<or> c = 0x2B"

section \<open>Inputs of the examples\<close>

definition date_2024_01_05 :: js_date where
  "date_2024_01_05 =
     \<lparr>utc_year = 2024, utc_month = 1, utc_day = 5, utc_hours = 23, utc_minutes = 59,
      utc_seconds = 7, utc_milliseconds = 42\<rparr>"

definition date_2024_03_01 :: js_date where
  "date_2024_03_01 =
     \<lparr>utc_year = 2024, utc_month = 3, utc_day = 1, utc_hours = 0, utc_minutes = 0,
      utc_seconds = 0, utc_milliseconds = 0\<rparr>"



definition TypeError :: js_error where
  \<comment> \<open>stands for the TypeError of \<^verbatim>\<open>path.resolve\<close> in the examples\<close>
  "TypeError =
     \<lparr>err_code = Some (js ''ERR_INVALID_ARG_TYPE''),
      err_message = js ''The path argument must be of type string. Received undefined''\<rparr>"

definition join_resolve :: "jsstring option \<Rightarrow> jsstring \<Rightarrow> js_error + jsstring" where
  \<comment> \<open>\<^verbatim>\<open>path.resolve\<close> at an absolute, normalised directory and a plain file name\<close>
  "join_resolve dir name =
     (case dir of None \<Rightarrow> Inl TypeError | Some d \<Rightarrow> Inr (d @ js ''/'' @ name))"

definition my_note :: tfile where
  "my_note = \<lparr>file_path = js ''notes/My Note.md'', file_name = js ''My Note.md''\<rparr>"

definition vault_of :: "jsstring \<Rightarrow> jsstring \<Rightarrow> js_error + jsstring" where
  \<comment> \<open>a vault that holds \<^verbatim>\<open>notes/My Note.md\<close> with the given content and nothing else\<close>
  "vault_of content p =
     (if p = js ''notes/My Note.md'' then Inr content
      else Inl \<lparr>err_code = Some (js ''ENOENT''), err_message = js ''ENOENT: no such file''\<rparr>)"

definition world_out :: world where
  \<comment> \<open>the directory \<^verbatim>\<open>/out\<close> exists, \<^verbatim>\<open>/ro\<close> exists and refuses writes to \<^verbatim>\<open>/ro/My Note.md\<close>\<close>
  "world_out =
     \<lparr>fs_entries = [js ''/out'' \<mapsto> Dir, js ''/ro'' \<mapsto> Dir],
      write_fault =
        [js ''/ro/My Note.md'' \<mapsto>
           \<lparr>err_code = Some (js ''EACCES''), err_message = js ''EACCES: permission denied''\<rparr>],
      vault = vault_of (js ''hello''),
      path_resolve = join_resolve,
      trace = []\<rparr>"

definition settings_of :: "jsstring list \<Rightarrow> bool \<Rightarrow> settings" where
  "settings_of folders dated =
     \<lparr>projectFolders = folders, showHiddenFolders = False, convertToJekyllFormat = dated\<rparr>"

section \<open>Properties of the string operations\<close>

lemma replace_class_filter:
  "replace_global (match_class P) [] s = filter (\<lambda>c. \<not> P c) s"
  by (induction s) (simp_all add: match_class_def)

lemma spec_remove_filter:
  "spec_remove_disallowed s = filter (\<lambda>c. \<not> is_disallowed c) s"
  by (induction s) (auto simp: spec_remove_disallowed_def is_disallowed_def)

lemma replace_plus_Cons:
  "replace_global (match_class_plus P) rep (c # cs) =
     (if P c then rep @ replace_global (match_class_plus P) rep (dropWhile P cs)
      else c # replace_global (match_class_plus P) rep cs)"
  by (simp add: match_class_plus_def dropWhile_eq_drop)

lemma runs_Nil_iff: "runs P xs = [] \<longleftrightarrow> xs = []"
  by (cases xs) (simp_all split: list.splits)

lemma hd_hd_runs: "hd (hd (runs P (x # xs))) = x"
  by (simp split: list.splits)

lemma concat_runs: "concat (runs P xs) = xs"
  by (induction xs) (auto split: list.splits)

lemma runs_nonempty: "r \<in> set (runs P xs) \<Longrightarrow> r \<noteq> []"
  by (induction xs arbitrary: r) (auto split: list.splits if_splits)

lemma runs_uniform: "r \<in> set (runs P xs) \<Longrightarrow> c \<in> set r \<Longrightarrow> P c = P (hd r)"
proof (induction xs arbitrary: r c)
  case Nil
  then show ?case by simp
next
  case (Cons x xs)
  show ?case
  proof (cases "runs P xs")
    case Nil
    then show ?thesis using Cons.prems by simp
  next
    case (Cons q qs)
    have q: "\<And>d. d \<in> set q \<Longrightarrow> P d = P (hd q)"
      using Cons.IH [of q] Cons by simp
    show ?thesis
    proof (cases "r \<in> set (runs P xs)")
      case True
      then show ?thesis using Cons.IH Cons.prems(2) by blast
    next
      case False
      then have "(r = x # q \<and> P x = P (hd q)) \<or> r = [x]"
        using Cons.prems(1) Cons by (auto split: if_splits)
      then show ?thesis
        using Cons.prems(2) q by auto
    qed
  qed
qed

lemma runs_maximal: "successively (\<lambda>r r'. P (hd r) \<noteq> P (hd r')) (runs P xs)"
proof (induction xs)
  case Nil
  then show ?case by simp
next
  case (Cons x xs)
  then show ?case
    by (cases "runs P xs") (auto simp: successively_Cons)
qed


lemma collapse_runs_Nil: "collapse_runs P rep [] = []" by (simp add: collapse_runs_def)

lemma collapse_runs_keep: "\<not> P x \<Longrightarrow> collapse_runs P rep (x # xs) = x # collapse_runs P rep xs"
  by (auto simp: collapse_runs_def split: list.splits)

lemma collapse_runs_run: "P x \<Longrightarrow> collapse_runs P rep (x # xs) = rep @ collapse_runs P rep (dropWhile P xs)"
proof (induction xs arbitrary: x)
  case Nil
  then show ?case by (simp add: collapse_runs_def)
next
  case (Cons y ys)
  show ?case
  proof (cases "P y")
    case True
    obtain r rs where rr: "runs P (y # ys) = r # rs"
      using runs_Nil_iff [of P "y # ys"] by (cases "runs P (y # ys)") auto
    have hr: "hd r = y" using hd_hd_runs [of P y ys] rr by simp
    have "collapse_runs P rep (x # y # ys) = collapse_runs P rep (y # ys)"
      using Cons.prems True rr hr by (simp add: collapse_runs_def)
    also have "\<dots> = rep @ collapse_runs P rep (dropWhile P ys)"
      using Cons.IH [OF True] .
    finally show ?thesis using True by simp
  next
    case False
    obtain r rs where rr: "runs P (y # ys) = r # rs"
      using runs_Nil_iff [of P "y # ys"] by (cases "runs P (y # ys)") auto
    have hr: "hd r = y" using hd_hd_runs [of P y ys] rr by simp
    show ?thesis using Cons.prems False rr hr by (simp add: collapse_runs_def)
  qed
qed

lemma replace_plus_collapse_runs:
  "replace_global (match_class_plus P) rep s = collapse_runs P rep s"
proof (induction s rule: length_induct)
  case (1 s)
  show ?case
  proof (cases s)
    case Nil
    then show ?thesis by (simp add: collapse_runs_Nil)
  next
    case (Cons c cs)
    have le: "length (dropWhile P cs) < length s"
      using Cons by (simp add: length_dropWhile_le le_imp_less_Suc)
    show ?thesis
    proof (cases "P c")
      case True
      then show ?thesis
        using 1 le Cons by (simp only: replace_plus_Cons collapse_runs_run if_True)
    next
      case False
      then show ?thesis
        using 1 Cons by (simp add: replace_plus_Cons collapse_runs_keep del: replace_global.simps)
    qed
  qed
qed

lemma digit_is_digit: "is_digit (digit n)"
proof -
  have "n mod 10 < 10" by simp
  then have "n mod 10 = 0 \<or> n mod 10 = 1 \<or> n mod 10 = 2 \<or> n mod 10 = 3 \<or> n mod 10 = 4 \<or>
      n mod 10 = 5 \<or> n mod 10 = 6 \<or> n mod 10 = 7 \<or> n mod 10 = 8 \<or> n mod 10 = 9"
    by arith
  then show ?thesis
    unfolding digit_def is_digit_def by auto
qed

lemma pad_digits: "c \<in> set (pad k n) \<Longrightarrow> is_digit c"
  by (induction k arbitrary: n) (auto simp: digit_is_digit)

lemma length_pad: "length (pad k n) = k"
  by (induction k arbitrary: n) simp_all

lemma year_string_chars: "c \<in> set (year_string y) \<Longrightarrow> date_char c"
  by (auto simp: year_string_def date_char_def js_def dest: pad_digits split: if_splits)

lemma date_char_not_T: "date_char c \<Longrightarrow> c \<noteq> CHAR_T"
  by (auto simp: date_char_def is_digit_def CHAR_T_def)

lemma date_char_not_whitespace: "date_char c \<Longrightarrow> \<not> is_whitespace c"
  by (auto simp: date_char_def is_digit_def is_whitespace_def)

lemma date_char_not_disallowed: "date_char c \<Longrightarrow> \<not> is_disallowed c"
  by (auto simp: date_char_def is_digit_def is_disallowed_def CHAR_HASH_def CHAR_QUESTION_def)

lemma iso_date_eq:
  "iso_date d =
     year_string (utc_year d) @ [CHAR_HYPHEN] @ pad 2 (utc_month d) @ [CHAR_HYPHEN]
     @ pad 2 (utc_day d)"
proof -
  let ?date = "year_string (utc_year d) @ [CHAR_HYPHEN] @ pad 2 (utc_month d) @ [CHAR_HYPHEN]
     @ pad 2 (utc_day d)"
  have "toISOString d =
      ?date @ CHAR_T # (pad 2 (utc_hours d) @ js '':'' @ pad 2 (utc_minutes d) @ js '':''
        @ pad 2 (utc_seconds d) @ js ''.'' @ pad 3 (utc_milliseconds d) @ js ''Z'')"
    by (simp add: toISOString_def js_def CHAR_T_def CHAR_HYPHEN_def)
  moreover have "date_char c" if "c \<in> set ?date" for c
    using that year_string_chars [of c] pad_digits [of c]
    by (auto simp: date_char_def CHAR_HYPHEN_def)
  then have "\<forall>c \<in> set ?date. c \<noteq> CHAR_T"
    using date_char_not_T by blast
  ultimately show ?thesis
    by (simp only: iso_date_def split_first_def takeWhile_tail takeWhile_append2 takeWhile.simps
        simp_thms if_True if_False append_Nil2)
qed

lemma iso_date_chars: "c \<in> set (iso_date d) \<Longrightarrow> date_char c"
  using year_string_chars [of c "utc_year d"] pad_digits [of c]
  by (auto simp: iso_date_eq date_char_def CHAR_HYPHEN_def)

lemma iso_date_four_digit_year:
  "0 \<le> utc_year d \<Longrightarrow> utc_year d \<le> 9999 \<Longrightarrow> iso_date d = spec_date d"
  by (simp add: iso_date_eq spec_date_def year_string_def)

lemma iso_date_expanded_year:
  "utc_year d < 0 \<or> 9999 < utc_year d \<Longrightarrow> iso_date d = expanded_date d"
  by (auto simp: iso_date_eq expanded_date_def year_string_def)

lemma remove_disallowed_filter:
  "remove_disallowed s = filter (\<lambda>c. \<not> is_disallowed c) s"
  by (simp add: remove_disallowed_def replace_class_filter)

lemma remove_disallowed_spec: "remove_disallowed s = spec_remove_disallowed s"
  by (simp add: remove_disallowed_filter spec_remove_filter)

lemma hyphenate_whitespace_spec: "hyphenate_whitespace s = spec_collapse_whitespace s"
  by (simp add: hyphenate_whitespace_def spec_collapse_whitespace_def replace_plus_collapse_runs
      js_def CHAR_HYPHEN_def)

lemma sanitized_title_spec:
  "hyphenate_whitespace (remove_disallowed (path_parse_name f)) = spec_title f"
  by (simp add: spec_title_def remove_disallowed_spec hyphenate_whitespace_spec)

lemma convert_eq:
  "convertToJekyllFileName now f = iso_date now @ js ''-'' @ spec_title f @ js ''.md''"
  by (simp add: convertToJekyllFileName_def sanitized_title_spec)

lemma collapse_runs_chars:
  assumes "c \<in> set (collapse_runs P rep s)"
  shows "c \<in> set rep \<or> (c \<in> set s \<and> \<not> P c)"
proof -
  from assms obtain r where r: "r \<in> set (runs P s)"
    and c: "(P (hd r) \<and> c \<in> set rep) \<or> (\<not> P (hd r) \<and> c \<in> set r)"
    by (auto simp: collapse_runs_def split: if_splits)
  show ?thesis
  proof (cases "P (hd r)")
    case True
    then show ?thesis using c by simp
  next
    case False
    then have cr: "c \<in> set r" using c by simp
    then have "\<not> P c" using runs_uniform [OF r cr] False by simp
    moreover have "c \<in> set (concat (runs P s))" using r cr by auto
    ultimately show ?thesis by (simp add: concat_runs)
  qed
qed

lemma spec_title_chars:
  assumes "c \<in> set (spec_title f)"
  shows "\<not> is_whitespace c \<and> \<not> is_disallowed c"
proof -
  from assms have "c = CHAR_HYPHEN \<or>
      (c \<in> set (spec_remove_disallowed (path_parse_name f)) \<and> \<not> is_whitespace c)"
    using collapse_runs_chars [of c is_whitespace "[CHAR_HYPHEN]"]
    by (auto simp: spec_title_def spec_collapse_whitespace_def)
  then show ?thesis
  proof
    assume "c = CHAR_HYPHEN"
    then show ?thesis
      by (simp add: CHAR_HYPHEN_def is_whitespace_def is_disallowed_def CHAR_HASH_def
          CHAR_QUESTION_def)
  next
    assume "c \<in> set (spec_remove_disallowed (path_parse_name f)) \<and> \<not> is_whitespace c"
    then show ?thesis by (simp add: spec_remove_filter)
  qed
qed

lemma spec_title_empty_iff:
  "spec_title f = [] \<longleftrightarrow> (\<forall>c \<in> set (path_parse_name f). is_disallowed c)"
proof -
  have "collapse_runs P rep s = [] \<longleftrightarrow> s = []" if "rep \<noteq> []" for P and rep s :: jsstring
  proof (cases s)
    case Nil
    then show ?thesis by (simp add: collapse_runs_Nil)
  next
    case (Cons x xs)
    then show ?thesis
      using that collapse_runs_keep [of P x rep xs] collapse_runs_run [of P x rep xs]
      by (cases "P x") auto
  qed
  then have "spec_title f = [] \<longleftrightarrow> spec_remove_disallowed (path_parse_name f) = []"
    by (simp add: spec_title_def spec_collapse_whitespace_def)
  then show ?thesis
    by (auto simp: spec_remove_filter filter_empty_conv)
qed

section \<open>\<^verbatim>\<open>path.parse\<close> on a plain file name\<close>

text \<open>
  On a name without a separator the scan of \<^verbatim>\<open>path.parse\<close> finds the last dot, and the
  \<^verbatim>\<open>name\<close> field is the file name without its extension.
\<close>

lemma preDotState_same: "preDotState st = v \<Longrightarrow> st\<lparr>preDotState := v\<rparr> = st"
  by (cases st) simp

lemma parse_scan_after_dot:
  assumes "\<forall>j<n. p ! j \<noteq> CHAR_FORWARD_SLASH" and "startDot st \<noteq> -1" and "endIdx st \<noteq> -1"
  shows "parse_scan p 0 n st
    = (if n = 0 then st else st\<lparr>preDotState := (if p ! 0 = CHAR_DOT then 1 else -1)\<rparr>)"
  using assms
proof (induction n arbitrary: st)
  case 0
  then show ?case by simp
next
  case (Suc i)
  let ?st2 = "st\<lparr>preDotState := (if p ! i = CHAR_DOT then 1 else -1)\<rparr>"
  have ns: "p ! i \<noteq> CHAR_FORWARD_SLASH" using Suc.prems(1) by simp
  have step: "parse_scan p 0 (Suc i) st = parse_scan p 0 i ?st2"
  proof (cases "preDotState st = 1")
    case True
    then show ?thesis
      using ns Suc.prems(2,3) by (simp add: Let_def preDotState_same)
  next
    case False
    then show ?thesis
      using ns Suc.prems(2,3) by (simp add: Let_def)
  qed
  have "parse_scan p 0 i ?st2
    = (if i = 0 then ?st2 else ?st2\<lparr>preDotState := (if p ! 0 = CHAR_DOT then 1 else -1)\<rparr>)"
    using Suc.prems by (intro Suc.IH) simp_all
  then show ?case
    using step by (cases i) simp_all
qed

lemma parse_scan_before_dot:
  assumes "\<forall>j<n. p ! j \<noteq> CHAR_FORWARD_SLASH" and "\<forall>j<n. p ! j \<noteq> CHAR_DOT"
    and "startDot st = -1" and "0 < n"
  shows "parse_scan p 0 n st
    = (if endIdx st = -1 then st\<lparr>matchedSlash := False, endIdx := int n\<rparr> else st)"
  using assms
proof (induction n arbitrary: st)
  case 0
  then show ?case by simp
next
  case (Suc i)
  let ?st1 = "if endIdx st = -1 then st\<lparr>matchedSlash := False, endIdx := int i + 1\<rparr> else st"
  have ns: "p ! i \<noteq> CHAR_FORWARD_SLASH" and nd: "p ! i \<noteq> CHAR_DOT"
    using Suc.prems(1,2) by simp_all
  have step: "parse_scan p 0 (Suc i) st = parse_scan p 0 i ?st1"
    using ns nd Suc.prems(3) by (simp add: Let_def)
  show ?case
  proof (cases i)
    case 0
    then show ?thesis using step by simp
  next
    case (Suc k)
    have "parse_scan p 0 i ?st1
      = (if endIdx ?st1 = -1 then ?st1\<lparr>matchedSlash := False, endIdx := int i\<rparr> else ?st1)"
      using Suc.prems Suc by (intro Suc.IH) simp_all
    then show ?thesis using step by simp
  qed
qed

lemma parse_scan_plain:
  assumes "\<forall>j<n. p ! j \<noteq> CHAR_FORWARD_SLASH" and "k < n" and "p ! k = CHAR_DOT"
    and "\<forall>j. k < j \<and> j < n \<longrightarrow> p ! j \<noteq> CHAR_DOT" and "startDot st = -1"
  shows "parse_scan p 0 n st
    = (let st1 = (if endIdx st = -1 then st\<lparr>matchedSlash := False, endIdx := int n\<rparr> else st);
           st2 = st1\<lparr>startDot := int k\<rparr>
       in if k = 0 then st2 else st2\<lparr>preDotState := (if p ! 0 = CHAR_DOT then 1 else -1)\<rparr>)"
  using assms
proof (induction n arbitrary: st)
  case 0
  then show ?case by simp
next
  case (Suc i)
  let ?st1 = "if endIdx st = -1 then st\<lparr>matchedSlash := False, endIdx := int i + 1\<rparr> else st"
  have ns: "p ! i \<noteq> CHAR_FORWARD_SLASH" using Suc.prems(1) by simp
  show ?case
  proof (cases "k = i")
    case True
    have step: "parse_scan p 0 (Suc i) st = parse_scan p 0 i (?st1\<lparr>startDot := int i\<rparr>)"
      using ns Suc.prems(3,5) True by (simp add: Let_def)
    have "parse_scan p 0 i (?st1\<lparr>startDot := int i\<rparr>)
      = (if i = 0 then ?st1\<lparr>startDot := int i\<rparr>
         else ?st1\<lparr>startDot := int i\<rparr>\<lparr>preDotState := (if p ! 0 = CHAR_DOT then 1 else -1)\<rparr>)"
      using Suc.prems(1) by (intro parse_scan_after_dot) simp_all
    then show ?thesis
      using step True by (simp add: Let_def)
  next
    case False
    then have ki: "k < i" using Suc.prems(2) by simp
    have nd: "p ! i \<noteq> CHAR_DOT" using Suc.prems(4) ki by simp
    have step: "parse_scan p 0 (Suc i) st = parse_scan p 0 i ?st1"
      using ns nd Suc.prems(5) by (simp add: Let_def)
    have "parse_scan p 0 i ?st1
      = (let st1 = (if endIdx ?st1 = -1 then ?st1\<lparr>matchedSlash := False, endIdx := int i\<rparr>
                    else ?st1);
             st2 = st1\<lparr>startDot := int k\<rparr>
         in if k = 0 then st2 else st2\<lparr>preDotState := (if p ! 0 = CHAR_DOT then 1 else -1)\<rparr>)"
      using Suc.prems ki by (intro Suc.IH) simp_all
    then show ?thesis
      using step by (simp add: Let_def)
  qed
qed

lemma strip_extension_split:
  assumes "CHAR_DOT \<notin> set ys"
  shows "strip_extension (xs @ CHAR_DOT # ys)
    = (if xs = [] \<or> (xs = [CHAR_DOT] \<and> ys = []) then xs @ CHAR_DOT # ys else xs)"
proof -
  have "dropWhile (\<lambda>c. c \<noteq> CHAR_DOT) (rev ys @ CHAR_DOT # rev xs) = CHAR_DOT # rev xs"
    using assms by (simp add: dropWhile_append)
  then have r: "rev (tl (dropWhile (\<lambda>c. c \<noteq> CHAR_DOT) (rev (xs @ CHAR_DOT # ys)))) = xs"
    by simp
  have d: "CHAR_DOT \<in> set (tl (xs @ CHAR_DOT # ys)) \<longleftrightarrow> xs \<noteq> []"
    using assms by (cases xs) simp_all
  have e: "xs @ CHAR_DOT # ys = [CHAR_DOT, CHAR_DOT] \<longleftrightarrow> xs = [CHAR_DOT] \<and> ys = []"
    using assms by (cases xs; cases ys) (auto simp: Cons_eq_append_conv append_eq_Cons_conv)
  show ?thesis
    unfolding strip_extension_def r d e by auto
qed

lemma path_parse_name_plain:
  assumes "CHAR_FORWARD_SLASH \<notin> set p"
  shows "path_parse_name p = strip_extension p"
proof (cases "p = []")
  case True
  then show ?thesis by (simp add: path_parse_name_def strip_extension_def)
next
  case False
  let ?n = "length p"
  have n: "0 < ?n" using False by simp
  have ns: "\<forall>j<?n. p ! j \<noteq> CHAR_FORWARD_SLASH"
    using assms by (metis nth_mem)
  then have p0: "p ! 0 \<noteq> CHAR_FORWARD_SLASH" using n by blast
  show ?thesis
  proof (cases "CHAR_DOT \<in> set p")
    case nodot: False
    then have nd: "\<forall>j<?n. p ! j \<noteq> CHAR_DOT" by (metis nth_mem)
    have "parse_scan p 0 ?n parse_init = parse_init\<lparr>matchedSlash := False, endIdx := int ?n\<rparr>"
      using parse_scan_before_dot [OF ns nd _ n, of parse_init] by (simp add: parse_init_def)
    then have "path_parse_name p = p"
      using False p0 by (simp add: path_parse_name_def Let_def parse_init_def slice_def)
    moreover have "CHAR_DOT \<notin> set (tl p)"
      using nodot by (meson list.set_sel(2) False)
    ultimately show ?thesis by (simp add: strip_extension_def)
  next
    case True
    then obtain xs ys where p: "p = xs @ CHAR_DOT # ys" and ys: "CHAR_DOT \<notin> set ys"
      using split_list_last by fast
    let ?k = "length xs"
    have k: "?k < ?n" and pk: "p ! ?k = CHAR_DOT"
      using p by simp_all
    have after: "\<forall>j. ?k < j \<and> j < ?n \<longrightarrow> p ! j \<noteq> CHAR_DOT"
    proof (intro allI impI)
      fix j assume j: "?k < j \<and> j < ?n"
      then have "p ! j = ys ! (j - Suc ?k)"
        using p by (simp add: nth_append nth_Cons')
      moreover have "j - Suc ?k < length ys" using j p by auto
      ultimately show "p ! j \<noteq> CHAR_DOT" using ys by (metis nth_mem)
    qed
    have scan: "parse_scan p 0 ?n parse_init
      = (let st2 = parse_init\<lparr>matchedSlash := False, endIdx := int ?n, startDot := int ?k\<rparr>
         in if ?k = 0 then st2
            else st2\<lparr>preDotState := (if p ! 0 = CHAR_DOT then 1 else -1)\<rparr>)"
      using parse_scan_plain [OF ns k pk after, of parse_init]
      by (simp add: parse_init_def Let_def)
    have tk: "take ?k p = xs" using p by simp
    have name: "path_parse_name p
      = (if xs = [] \<or> (xs = [CHAR_DOT] \<and> ys = []) then p else xs)"
    proof (cases "xs = []")
      case True
      then show ?thesis
        using False p0 scan by (simp add: path_parse_name_def Let_def parse_init_def slice_def)
    next
      case xs: False
      then have k0: "?k \<noteq> 0" by simp
      have hd0: "p ! 0 = hd xs" using xs p by (simp add: nth_append hd_conv_nth)
      have one: "(hd xs = CHAR_DOT \<and> int ?k = int ?n - 1 \<and> ?k = 1)
          \<longleftrightarrow> (xs = [CHAR_DOT] \<and> ys = [])"
        using xs p by (cases xs) auto
      show ?thesis
      proof (cases "xs = [CHAR_DOT] \<and> ys = []")
        case True
        then show ?thesis
          using p by (simp add: path_parse_name_def Let_def parse_init_def slice_def
              CHAR_DOT_def CHAR_FORWARD_SLASH_def)
      next
        case notdd: False
        have "path_parse_name p = slice p 0 ?k"
          using False p0 scan k0 hd0 one notdd xs
          by (auto simp: path_parse_name_def Let_def parse_init_def)
        then show ?thesis
          using notdd xs tk by (auto simp: slice_def)
      qed
    qed
    show ?thesis
      using name strip_extension_split [OF ys, of xs] p by simp
  qed
qed

subsection \<open>Evaluation at the example dates\<close>

lemma pad_numeral: "pad (numeral k) n = pad (pred_numeral k) (n div 10) @ [digit n]"
  using pad.simps(2) [of "pred_numeral k" n] by (simp only: numeral_eq_Suc [of k, symmetric])

lemma pad_1: "pad 1 n = [digit n]"
  by simp

lemmas date_eval = iso_date_eq spec_date_def expanded_date_def year_string_def pad_numeral pad_1
  digit_def js_def CHAR_HYPHEN_def

lemma iso_date_2024_01_05: "iso_date date_2024_01_05 = js ''2024-01-05''"
  by (simp add: date_2024_01_05_def date_eval)

lemma spec_date_2024_01_05: "spec_date date_2024_01_05 = js ''2024-01-05''"
  by (simp add: date_2024_01_05_def date_eval)

lemma iso_date_2024_03_01: "iso_date date_2024_03_01 = js ''2024-03-01''"
  by (simp add: date_2024_03_01_def date_eval)






lemma spec_title_a_b_c: "spec_title (js ''a   b'' @ [0x09] @ js ''c.md'') = js ''a-b-c''"
  by code_simp

lemma spec_title_what_tag: "spec_title (js ''what? #tag.md'') = js ''what-tag''"
  by code_simp


lemma spec_title_x:
  "spec_title (js ''x.markdown'') = js ''x''" "spec_title (js ''x.txt'') = js ''x''"
  "spec_title (js ''x'') = js ''x''"
  by code_simp+

lemma spec_title_My_Note: "spec_title (js ''My Note.md'') = js ''My-Note''"
  by code_simp

section \<open>The dated transform\<close>

text \<open>
  On a date whose UTC year lies in 0..9999 the dated transform is what the specification
  words: YYYY-MM-DD, a hyphen, the title and \<^verbatim>\<open>.md\<close>, the title being the \<^verbatim>\<open>name\<close> that
  \<^verbatim>\<open>path.parse\<close> gives (on a file name without \<^verbatim>\<open>/\<close>, the name without its extension),
  with every occurrence of \<^verbatim>\<open>#\<close> and \<^verbatim>\<open>?\<close> removed and then every maximal run of white space
  replaced by one hyphen.
\<close>

lemma dated_transform_pipeline:
  assumes "0 \<le> utc_year now" and "utc_year now \<le> 9999"
  shows "convertToJekyllFileName now fileName
        = spec_date now @ js ''-'' @ spec_title fileName @ js ''.md''
    \<and> (CHAR_FORWARD_SLASH \<notin> set fileName \<longrightarrow>
        spec_title fileName
          = spec_collapse_whitespace (spec_remove_disallowed (strip_extension fileName)))"
proof
  show "convertToJekyllFileName now fileName
      = spec_date now @ js ''-'' @ spec_title fileName @ js ''.md''"
    using assms by (simp add: convert_eq iso_date_four_digit_year)
  show "CHAR_FORWARD_SLASH \<notin> set fileName \<longrightarrow>
      spec_title fileName
        = spec_collapse_whitespace (spec_remove_disallowed (strip_extension fileName))"
    by (simp add: spec_title_def path_parse_name_plain)
qed

text \<open>The two examples of the specification, on 2024-01-05.\<close>

lemma dated_transform_examples:
  "convertToJekyllFileName date_2024_01_05 (js ''a   b'' @ [0x09] @ js ''c.md'')
       = js ''2024-01-05-a-b-c.md''
   \<and> convertToJekyllFileName date_2024_01_05 (js ''what? #tag.md'')
       = js ''2024-01-05-what-tag.md''
   \<and> spec_collapse_whitespace (spec_remove_disallowed (strip_extension (js ''what? #tag.md'')))
       = js ''what-tag''"
proof -
  have y: "0 \<le> utc_year date_2024_01_05" "utc_year date_2024_01_05 \<le> 9999"
    by (simp_all add: date_2024_01_05_def)
  have s: "CHAR_FORWARD_SLASH \<notin> set (js ''what? #tag.md'')"
    by (simp add: js_def CHAR_FORWARD_SLASH_def)
  have a: "convertToJekyllFileName date_2024_01_05 (js ''a   b'' @ [0x09] @ js ''c.md'')
      = js ''2024-01-05'' @ js ''-'' @ js ''a-b-c'' @ js ''.md''"
    using dated_transform_pipeline [OF y, of "js ''a   b'' @ [0x09] @ js ''c.md''"]
    by (simp only: spec_date_2024_01_05 spec_title_a_b_c simp_thms)
  have b: "convertToJekyllFileName date_2024_01_05 (js ''what? #tag.md'')
      = js ''2024-01-05'' @ js ''-'' @ js ''what-tag'' @ js ''.md''"
    using dated_transform_pipeline [OF y, of "js ''what? #tag.md''"]
    by (simp only: spec_date_2024_01_05 spec_title_what_tag simp_thms)
  have d: "spec_collapse_whitespace (spec_remove_disallowed (strip_extension (js ''what? #tag.md'')))
      = js ''what-tag''"
    using dated_transform_pipeline [OF y, of "js ''what? #tag.md''"] s
    by (simp only: spec_title_what_tag simp_thms)
  show ?thesis
    using a b d by (simp add: js_def)
qed

text \<open>
  For a year that four digits do not hold, the date comes in the expanded form, the rest of
  the result being the same.
\<close>

lemma dated_transform_expanded_year:
  assumes "utc_year now < 0 \<or> 9999 < utc_year now"
  shows "convertToJekyllFileName now fileName
    = expanded_date now @ js ''-'' @ spec_title fileName @ js ''.md''"
  using assms by (simp add: convert_eq iso_date_expanded_year)


text \<open>
  C7: for every file name and every date, the last three code units of the dated
  transform's result are \<^verbatim>\<open>.md\<close>, whatever the extension of the source.
\<close>

theorem extension_normalization:
  "drop (length (convertToJekyllFileName now fileName) - 3)
     (convertToJekyllFileName now fileName) = js ''.md''"
proof -
  let ?stem = "iso_date now @ js ''-'' @ spec_title fileName"
  have shape: "convertToJekyllFileName now fileName = ?stem @ js ''.md''"
    by (simp add: convert_eq)
  have three: "length (js ''.md'') = 3"
    by (simp add: js_def)
  have "drop (length (?stem @ js ''.md'') - 3) (?stem @ js ''.md'') = js ''.md''"
    using three by simp
  then show ?thesis
    by (simp only: shape)
qed

theorem extension_normalization_witness:
  "convertToJekyllFileName date_2024_01_05 (js ''x.markdown'') = js ''2024-01-05-x.md''
   \<and> convertToJekyllFileName date_2024_01_05 (js ''x.txt'') = js ''2024-01-05-x.md''
   \<and> convertToJekyllFileName date_2024_01_05 (js ''x'') = js ''2024-01-05-x.md''
   \<and> drop (length (js ''2024-01-05-x.md'') - 3) (js ''2024-01-05-x.md'') = js ''.md''"
proof -
  have a: "convertToJekyllFileName date_2024_01_05 (js ''x.markdown'') = js ''2024-01-05-x.md''"
    unfolding convert_eq iso_date_2024_01_05 spec_title_x by (simp add: js_def)
  have b: "convertToJekyllFileName date_2024_01_05 (js ''x.txt'') = js ''2024-01-05-x.md''"
    unfolding convert_eq iso_date_2024_01_05 spec_title_x by (simp add: js_def)
  have c: "convertToJekyllFileName date_2024_01_05 (js ''x'') = js ''2024-01-05-x.md''"
    unfolding convert_eq iso_date_2024_01_05 spec_title_x by (simp add: js_def)
  show ?thesis
    using a b c extension_normalization [of date_2024_01_05 "js ''x''"]
    by simp
qed

text \<open>
  A title is empty after sanitization exactly when the name without extension consists of
  \<^verbatim>\<open>#\<close> and \<^verbatim>\<open>?\<close> only (white space leaves a hyphen). On a date whose UTC year lies in
  0..9999 the transform then returns YYYY-MM-DD followed by \<^verbatim>\<open>-.md\<close>: the code has no
  special case for it.
\<close>

lemma empty_title_transform:
  assumes "0 \<le> utc_year now" and "utc_year now \<le> 9999"
    and "\<forall>c \<in> set (path_parse_name fileName). c = CHAR_HASH \<or> c = CHAR_QUESTION"
  shows "hyphenate_whitespace (remove_disallowed (path_parse_name fileName)) = []
    \<and> convertToJekyllFileName now fileName = spec_date now @ js ''-.md''"
proof -
  have "spec_title fileName = []"
    using assms(3) by (simp add: spec_title_empty_iff is_disallowed_def)
  then show ?thesis
    using assms(1,2)
    by (simp add: sanitized_title_spec convert_eq iso_date_four_digit_year js_def)
qed

lemma empty_title_example:
  "convertToJekyllFileName date_2024_01_05 (js ''#?.md'') = js ''2024-01-05-.md''"
proof -
  have y: "0 \<le> utc_year date_2024_01_05" "utc_year date_2024_01_05 \<le> 9999"
    by (simp_all add: date_2024_01_05_def)
  have "path_parse_name (js ''#?.md'') = js ''#?''"
    by code_simp
  then have t: "\<forall>c \<in> set (path_parse_name (js ''#?.md'')). c = CHAR_HASH \<or> c = CHAR_QUESTION"
    by (simp add: js_def CHAR_HASH_def CHAR_QUESTION_def)
  have "convertToJekyllFileName date_2024_01_05 (js ''#?.md'') = js ''2024-01-05'' @ js ''-.md''"
    using empty_title_transform [OF y t] by (simp only: spec_date_2024_01_05)
  then show ?thesis
    by (simp add: js_def)
qed


text \<open>
  C9: removing the disallowed characters twice gives what removing them once gives.
\<close>

theorem remove_disallowed_idempotent:
  "remove_disallowed (remove_disallowed title) = remove_disallowed title"
proof -
  have once: "remove_disallowed title = filter (\<lambda>c. \<not> is_disallowed c) title"
    by (rule remove_disallowed_filter)
  have "remove_disallowed (filter (\<lambda>c. \<not> is_disallowed c) title)
      = filter (\<lambda>c. \<not> is_disallowed c) (filter (\<lambda>c. \<not> is_disallowed c) title)"
    by (rule remove_disallowed_filter)
  also have "\<dots> = filter (\<lambda>c. \<not> is_disallowed c) title"
    by simp
  finally show ?thesis
    by (simp only: once)
qed

theorem remove_disallowed_idempotent_witness:
  "remove_disallowed (js ''what? #tag'') = js ''what tag''
   \<and> remove_disallowed (remove_disallowed (js ''what? #tag'')) = js ''what tag''"
proof -
  have a: "remove_disallowed (js ''what? #tag'') = js ''what tag''"
    by code_simp
  show ?thesis
    using a remove_disallowed_idempotent [of "js ''what? #tag''"] by simp
qed

text \<open>
  C10: for every file name and every date, no code unit of the dated transform's result is
  white space (the class \<^verbatim>\<open>\s\<close>), \<^verbatim>\<open>#\<close> or \<^verbatim>\<open>?\<close>.
\<close>

theorem dated_transform_output_clean:
  assumes "c \<in> set (convertToJekyllFileName now fileName)"
  shows "\<not> is_whitespace c \<and> c \<noteq> CHAR_HASH \<and> c \<noteq> CHAR_QUESTION"
proof -
  from assms have "c \<in> set (iso_date now) \<or> c = 0x2D \<or> c \<in> set (spec_title fileName)
      \<or> c \<in> set (js ''.md'')"
    by (auto simp: convert_eq js_def)
  moreover have "date_char c" if "c \<in> set (iso_date now) \<or> c = 0x2D"
    using that iso_date_chars by (auto simp: date_char_def)
  moreover have "\<not> is_whitespace c \<and> \<not> is_disallowed c" if "c \<in> set (js ''.md'')"
    using that
    by (auto simp: js_def is_whitespace_def is_disallowed_def CHAR_HASH_def CHAR_QUESTION_def)
  ultimately have "\<not> is_whitespace c \<and> \<not> is_disallowed c"
    using spec_title_chars date_char_not_whitespace date_char_not_disallowed by blast
  then show ?thesis by (simp add: is_disallowed_def)
qed

theorem dated_transform_output_clean_witness:
  "(0x77 :: jschar) \<in> set (convertToJekyllFileName date_2024_01_05 (js ''what? #tag.md''))
   \<and> \<not> is_whitespace 0x77 \<and> (0x77 :: jschar) \<noteq> CHAR_HASH \<and> (0x77 :: jschar) \<noteq> CHAR_QUESTION"
proof -
  have m: "(0x77 :: jschar) \<in> set (convertToJekyllFileName date_2024_01_05 (js ''what? #tag.md''))"
    unfolding convert_eq iso_date_2024_01_05 spec_title_what_tag by (simp add: js_def)
  show ?thesis
    using m dated_transform_output_clean [OF m] by simp
qed

section \<open>The push, step by step\<close>

lemma log_event_simps:
  "fs_entries (log_event e w) = fs_entries w"
  "write_fault (log_event e w) = write_fault w"
  "vault (log_event e w) = vault w"
  "path_resolve (log_event e w) = path_resolve w"
  "trace (log_event e w) = trace w @ [e]"
  by (simp_all add: log_event_def)

lemma push_target_log_event:
  "push_target s now file tp (log_event e w) = push_target s now file tp w"
  by (simp add: push_target_def log_event_simps)

lemma new_events_append: "trace w' = trace w @ es \<Longrightarrow> new_events w w' = es"
  by (simp add: new_events_def)

lemma writeFile_fst_trace: "fst (writeFile p c (w\<lparr>trace := t\<rparr>)) = fst (writeFile p c w)"
  by (simp add: writeFile_def Let_def log_event_def split: option.splits entry.splits)

lemma writeFile_ok:
  assumes "fst (writeFile p c w) = Inr u"
  shows "writeFile p c w
    = (Inr (), w\<lparr>trace := trace w @ [FsWrite p c], fs_entries := (fs_entries w)(p \<mapsto> File c)\<rparr>)"
  using assms
  by (auto simp: writeFile_def Let_def log_event_def split: option.splits entry.splits)

lemma writeFile_fail:
  assumes "fst (writeFile p c w) = Inl e"
  shows "writeFile p c w = (Inl e, w\<lparr>trace := trace w @ [FsWrite p c]\<rparr>)"
  using assms
  by (auto simp: writeFile_def Let_def log_event_def split: option.splits entry.splits)

lemma pushFile_read_fails:
  assumes "vault w (file_path file) = Inl e"
  shows "pushFile s now file tp w
    = w\<lparr>trace := trace w @ [ConsoleLog tp, VaultRead (file_path file),
          NoticeShown (PUSH_ERROR_PREFIX @ err_message e)]\<rparr>"
  using assms by (simp add: pushFile_def vault_read_def caught_def log_event_def)

lemma pushFile_target_fails:
  assumes "vault w (file_path file) = Inr c" and "push_target s now file tp w = Inl e"
  shows "pushFile s now file tp w
    = w\<lparr>trace := trace w @ [ConsoleLog tp, VaultRead (file_path file),
          NoticeShown (PUSH_ERROR_PREFIX @ err_message e)]\<rparr>"
proof -
  have "push_target s now file tp
      (log_event (VaultRead (file_path file)) (log_event (ConsoleLog tp) w)) = Inl e"
    using assms(2) by (simp add: push_target_log_event)
  then show ?thesis
    using assms(1) by (simp add: pushFile_def vault_read_def caught_def log_event_simps)
qed

lemma pushFile_write_fails:
  assumes "vault w (file_path file) = Inr c" and "push_target s now file tp w = Inr p"
    and "fst (writeFile p c w) = Inl e"
  shows "pushFile s now file tp w
    = w\<lparr>trace := trace w @ [ConsoleLog tp, VaultRead (file_path file), FsWrite p c,
          NoticeShown (PUSH_ERROR_PREFIX @ err_message e)]\<rparr>"
proof -
  let ?w1 = "log_event (VaultRead (file_path file)) (log_event (ConsoleLog tp) w)"
  have t: "push_target s now file tp ?w1 = Inr p"
    using assms(2) by (simp add: push_target_log_event)
  have "fst (writeFile p c ?w1) = Inl e"
    using assms(3) by (simp add: log_event_def writeFile_fst_trace)
  then have "writeFile p c ?w1 = (Inl e, ?w1\<lparr>trace := trace ?w1 @ [FsWrite p c]\<rparr>)"
    by (rule writeFile_fail)
  then show ?thesis
    using assms(1) t by (simp add: pushFile_def vault_read_def caught_def log_event_simps)
qed

lemma pushFile_succeeds:
  assumes "vault w (file_path file) = Inr c" and "push_target s now file tp w = Inr p"
    and "fst (writeFile p c w) = Inr u"
  shows "pushFile s now file tp w
    = w\<lparr>trace := trace w @ [ConsoleLog tp, VaultRead (file_path file), FsWrite p c,
          NoticeShown (PUSH_SUCCESS_PREFIX @ p)],
        fs_entries := (fs_entries w)(p \<mapsto> File c)\<rparr>"
proof -
  let ?w1 = "log_event (VaultRead (file_path file)) (log_event (ConsoleLog tp) w)"
  have t: "push_target s now file tp ?w1 = Inr p"
    using assms(2) by (simp add: push_target_log_event)
  have "fst (writeFile p c ?w1) = Inr u"
    using assms(3) by (simp add: log_event_def writeFile_fst_trace)
  then have "writeFile p c ?w1
      = (Inr (), ?w1\<lparr>trace := trace ?w1 @ [FsWrite p c],
           fs_entries := (fs_entries ?w1)(p \<mapsto> File c)\<rparr>)"
    by (rule writeFile_ok)
  then show ?thesis
    using assms(1) t by (simp add: pushFile_def vault_read_def log_event_simps)
qed

section \<open>The list of project folders\<close>

lemma indexOf_folder0:
  "indexOf (p # ps) (Some p) = 0"
  by (simp add: indexOf_def)

lemma ClickDelete_folders:
  "projectFolders (tab_settings (tab_step ClickDelete t))
     = drop 1 (projectFolders (tab_settings t))"
proof (cases "projectFolders (tab_settings t)")
  case Nil
  then show ?thesis by (simp add: folder0_def indexOf_def)
next
  case (Cons p ps)
  then show ?thesis by (simp add: folder0_def indexOf_folder0 splice1_def)
qed

lemma tab_step_length:
  "length (projectFolders (tab_settings t)) - (if a = ClickDelete then 1 else 0)
     \<le> length (projectFolders (tab_settings (tab_step a t)))"
proof (cases a)
  case ClickDelete
  then show ?thesis by (simp only: ClickDelete_folders) simp
qed (auto simp: set_folder0_def split: list.splits)

lemma tab_run_length:
  "length (projectFolders (tab_settings t)) - count_list acts ClickDelete
     \<le> length (projectFolders (tab_settings (tab_run acts t)))"
proof (induction acts arbitrary: t)
  case Nil
  then show ?case by (simp add: tab_run_def)
next
  case (Cons a acts)
  have "length (projectFolders (tab_settings t)) - count_list (a # acts) ClickDelete
      \<le> length (projectFolders (tab_settings (tab_step a t))) - count_list acts ClickDelete"
    using tab_step_length [of t a] by (cases "a = ClickDelete") auto
  also have "\<dots> \<le> length (projectFolders (tab_settings (tab_run acts (tab_step a t))))"
    by (rule Cons.IH)
  finally show ?case by (simp add: tab_run_def)
qed

text \<open>
  C3, as stated: the list of project folders is never empty, whatever configuration
  operations are applied. Removing a path from the default settings empties it.
\<close>

theorem remove_path_empties_default:
  "projectFolders (tab_settings (tab_run [ClickDelete] (tab_open (loadSettings None)))) = []"
  by (simp add: tab_run_def tab_open_def loadSettings_def DEFAULT_SETTINGS_def folder0_def
      indexOf_def splice1_def)

text \<open>
  C3, amended: the default list has one entry; adding a path, selecting a path and the two
  toggles never shorten the list; removing a path deletes exactly the entry at index 0.
  So the list is non-empty after a sequence of configuration operations that holds fewer
  removals than the list had entries, and a removal on a list of one entry, such as the
  default, leaves it empty.
\<close>

theorem project_folders_nonempty:
  "projectFolders (loadSettings None) = [[]]
   \<and> (a \<noteq> ClickDelete \<longrightarrow>
        length (projectFolders (tab_settings t))
          \<le> length (projectFolders (tab_settings (tab_step a t))))
   \<and> projectFolders (tab_settings (tab_step ClickDelete t))
        = drop 1 (projectFolders (tab_settings t))
   \<and> (count_list acts ClickDelete < length (projectFolders (tab_settings t)) \<longrightarrow>
        projectFolders (tab_settings (tab_run acts t)) \<noteq> [])"
proof -
  have "projectFolders (loadSettings None) = [[]]"
    by (simp add: loadSettings_def DEFAULT_SETTINGS_def)
  moreover have "a \<noteq> ClickDelete \<longrightarrow>
        length (projectFolders (tab_settings t))
          \<le> length (projectFolders (tab_settings (tab_step a t)))"
    using tab_step_length [of t a] by auto
  moreover have "count_list acts ClickDelete < length (projectFolders (tab_settings t)) \<longrightarrow>
        projectFolders (tab_settings (tab_run acts t)) \<noteq> []"
    using tab_run_length [of t acts] by auto
  ultimately show ?thesis
    using ClickDelete_folders by blast
qed

theorem project_folders_nonempty_witness:
  "TypeNewPath (js ''  /srv   blog '') \<noteq> ClickDelete
   \<and> count_list [TypeNewPath (js ''  /srv   blog ''), ClickAdd, ClickDelete] ClickDelete
       < length (projectFolders (tab_settings (tab_open (settings_of [js ''/a'', js ''/b''] False))))
   \<and> projectFolders (tab_settings
        (tab_run [TypeNewPath (js ''  /srv   blog ''), ClickAdd, ClickDelete]
           (tab_open (settings_of [js ''/a'', js ''/b''] False)))) = [js ''/b'', js ''/srv blog'']
   \<and> projectFolders (tab_settings
        (tab_run [TypeNewPath (js ''  /srv   blog ''), ClickAdd, ClickDelete]
           (tab_open (settings_of [js ''/a'', js ''/b''] False)))) \<noteq> []"
proof -
  have n: "TypeNewPath (js ''  /srv   blog '') \<noteq> ClickDelete" by simp
  have l: "count_list [TypeNewPath (js ''  /srv   blog ''), ClickAdd, ClickDelete] ClickDelete
       < length (projectFolders (tab_settings (tab_open (settings_of [js ''/a'', js ''/b''] False))))"
    by (simp add: tab_open_def settings_of_def)
  have v: "projectFolders (tab_settings
        (tab_run [TypeNewPath (js ''  /srv   blog ''), ClickAdd, ClickDelete]
           (tab_open (settings_of [js ''/a'', js ''/b''] False)))) = [js ''/b'', js ''/srv blog'']"
    by code_simp
  show ?thesis
    using n l v
      project_folders_nonempty [of "TypeNewPath (js ''  /srv   blog '')"
        "tab_open (settings_of [js ''/a'', js ''/b''] False)"
        "[TypeNewPath (js ''  /srv   blog ''), ClickAdd, ClickDelete]"]
    by simp
qed

section \<open>The validator\<close>

lemma isProjectPathValid_eq:
  "isProjectPathValid s w =
     (if exists_path (folder0 s) w then (True, w)
      else (False, w\<lparr>trace := trace w @ [ModalOpened MISSING_FOLDER_TEXT]\<rparr>))"
  by (simp add: isProjectPathValid_def log_event_def)

lemma world_out_entries:
  "fs_entries world_out (js ''/out'') = Some Dir"
  "fs_entries world_out (js ''/ro'') = Some Dir"
  "fs_entries world_out (js ''/nonexistent'') = None"
  "fs_entries world_out (js ''/missing'') = None"
  "fs_entries world_out (js ''/out/My Note.md'') = None"
  "fs_entries world_out (js ''/ro/My Note.md'') = None"
  "fs_entries world_out (js ''/out/2024-03-01-My-Note.md'') = None"
  by (simp_all add: world_out_def js_def)

lemma world_out_faults:
  "write_fault world_out (js ''/out/My Note.md'') = None"
  "write_fault world_out (js ''/out/2024-03-01-My-Note.md'') = None"
  "write_fault world_out (js ''/ro/My Note.md'')
     = Some \<lparr>err_code = Some (js ''EACCES''), err_message = js ''EACCES: permission denied''\<rparr>"
  by (simp_all add: world_out_def js_def)

lemma world_out_fields:
  "vault world_out = vault_of (js ''hello'')"
  "path_resolve world_out = join_resolve"
  "trace world_out = []"
  by (simp_all add: world_out_def)

text \<open>
  C4, as stated: when the first folder does not exist, validation fails with an
  InvalidPathError that carries the offending path, and has no other side effect. The code
  returns the bare \<^verbatim>\<open>false\<close> and opens a modal with a fixed text: at two different missing
  folders the outcome is the same, the text holds no \<^verbatim>\<open>/\<close>, and the log has grown.
\<close>

theorem validator_failure_carries_no_path:
  "js ''/nonexistent'' \<noteq> js ''/missing''
   \<and> isProjectPathValid (settings_of [js ''/nonexistent''] False) world_out
       = (False, world_out\<lparr>trace := [ModalOpened MISSING_FOLDER_TEXT]\<rparr>)
   \<and> isProjectPathValid (settings_of [js ''/missing''] False) world_out
       = isProjectPathValid (settings_of [js ''/nonexistent''] False) world_out
   \<and> CHAR_FORWARD_SLASH \<notin> set MISSING_FOLDER_TEXT
   \<and> new_events world_out
         (snd (isProjectPathValid (settings_of [js ''/nonexistent''] False) world_out)) \<noteq> []"
proof -
  have a: "js ''/nonexistent'' \<noteq> js ''/missing''"
    by (simp add: js_def)
  have b: "CHAR_FORWARD_SLASH \<notin> set MISSING_FOLDER_TEXT"
    by (simp add: CHAR_FORWARD_SLASH_def MISSING_FOLDER_TEXT_def)
  have c: "isProjectPathValid (settings_of [q] False) world_out
       = (False, world_out\<lparr>trace := [ModalOpened MISSING_FOLDER_TEXT]\<rparr>)"
    if "fs_entries world_out q = None" for q
    using that
    by (simp add: isProjectPathValid_eq exists_path_def folder0_def settings_of_def
        world_out_fields)
  show ?thesis
    using a b c [OF world_out_entries(3)] c [OF world_out_entries(4)]
    by (simp add: new_events_def world_out_fields)
qed

text \<open>
  C4, amended: for every non-empty list of folders, validation answers true exactly when
  the path at index 0 exists, and then changes nothing; when the path does not exist it
  answers false after opening one modal with a fixed text, which does not name the path,
  changes nothing else, and the push (by command or by file menu) and the validation
  command end there: nothing is read, written or notified.
\<close>

theorem validator_contract:
  assumes "projectFolders s = p # ps"
  shows "(fst (isProjectPathValid s w) \<longleftrightarrow> fs_entries w p \<noteq> None)
    \<and> (fs_entries w p \<noteq> None \<longrightarrow> isProjectPathValid s w = (True, w))
    \<and> (fs_entries w p = None \<longrightarrow>
         isProjectPathValid s w
           = (False, w\<lparr>trace := trace w @ [ModalOpened MISSING_FOLDER_TEXT]\<rparr>)
         \<and> push_md_command s now view_file w
           = w\<lparr>trace := trace w @ [ModalOpened MISSING_FOLDER_TEXT]\<rparr>
         \<and> file_menu_push s now file w
           = w\<lparr>trace := trace w @ [ModalOpened MISSING_FOLDER_TEXT]\<rparr>
         \<and> validate_path_command s w
           = w\<lparr>trace := trace w @ [ModalOpened MISSING_FOLDER_TEXT]\<rparr>)"
  using assms
  by (simp add: isProjectPathValid_eq exists_path_def folder0_def push_md_command_def
      file_menu_push_def validate_path_command_def)

theorem validator_contract_witness:
  "projectFolders (settings_of [js ''/nonexistent''] False) = js ''/nonexistent'' # []
   \<and> fs_entries world_out (js ''/nonexistent'') = None
   \<and> \<not> fst (isProjectPathValid (settings_of [js ''/nonexistent''] False) world_out)
   \<and> trace (push_md_command (settings_of [js ''/nonexistent''] False) date_2024_03_01
        (Some my_note) world_out) = [ModalOpened MISSING_FOLDER_TEXT]
   \<and> projectFolders (settings_of [js ''/out''] False) = js ''/out'' # []
   \<and> fs_entries world_out (js ''/out'') \<noteq> None
   \<and> isProjectPathValid (settings_of [js ''/out''] False) world_out = (True, world_out)"
proof -
  have a: "projectFolders (settings_of [js ''/nonexistent''] False) = js ''/nonexistent'' # []"
    by (simp add: settings_of_def)
  have b: "projectFolders (settings_of [js ''/out''] False) = js ''/out'' # []"
    by (simp add: settings_of_def)
  show ?thesis
    using a b world_out_entries(1,3)
      validator_contract [OF a, of world_out date_2024_03_01 "Some my_note" my_note]
      validator_contract [OF b, of world_out date_2024_03_01 "Some my_note" my_note]
    by (simp add: world_out_fields)
qed

section \<open>Errors of a push\<close>

text \<open>
  C5: if reading the document fails, the push writes nothing (no write is requested and
  the file system is unchanged); a failure of the read, of the write, or of resolving the
  dated target is answered by exactly one notice, the fixed prefix followed by the error's
  message, with one read and at most one write requested (no retry), and nothing of the
  error besides its message reaches the notice.
\<close>

theorem push_error_reporting:
  "(vault w (file_path file) = Inl e \<longrightarrow>
      fs_entries (pushFile s now file tp w) = fs_entries w
      \<and> new_events w (pushFile s now file tp w)
          = [ConsoleLog tp, VaultRead (file_path file),
             NoticeShown (PUSH_ERROR_PREFIX @ err_message e)])
   \<and> (vault w (file_path file) = Inr c \<and> push_target s now file tp w = Inl e \<longrightarrow>
      fs_entries (pushFile s now file tp w) = fs_entries w
      \<and> new_events w (pushFile s now file tp w)
          = [ConsoleLog tp, VaultRead (file_path file),
             NoticeShown (PUSH_ERROR_PREFIX @ err_message e)])
   \<and> (vault w (file_path file) = Inr c \<and> push_target s now file tp w = Inr p
       \<and> fst (writeFile p c w) = Inl e \<longrightarrow>
      new_events w (pushFile s now file tp w)
          = [ConsoleLog tp, VaultRead (file_path file), FsWrite p c,
             NoticeShown (PUSH_ERROR_PREFIX @ err_message e)])"
proof (intro conjI impI)
  assume r: "vault w (file_path file) = Inl e"
  show "fs_entries (pushFile s now file tp w) = fs_entries w"
    by (simp add: pushFile_read_fails [OF r])
  show "new_events w (pushFile s now file tp w)
      = [ConsoleLog tp, VaultRead (file_path file),
         NoticeShown (PUSH_ERROR_PREFIX @ err_message e)]"
    by (simp add: pushFile_read_fails [OF r] new_events_def)
next
  assume h: "vault w (file_path file) = Inr c \<and> push_target s now file tp w = Inl e"
  then have eq: "pushFile s now file tp w
      = w\<lparr>trace := trace w @ [ConsoleLog tp, VaultRead (file_path file),
            NoticeShown (PUSH_ERROR_PREFIX @ err_message e)]\<rparr>"
    using pushFile_target_fails by blast
  show "fs_entries (pushFile s now file tp w) = fs_entries w"
    by (simp add: eq)
  show "new_events w (pushFile s now file tp w)
      = [ConsoleLog tp, VaultRead (file_path file),
         NoticeShown (PUSH_ERROR_PREFIX @ err_message e)]"
    by (simp add: eq new_events_def)
next
  assume h: "vault w (file_path file) = Inr c \<and> push_target s now file tp w = Inr p
       \<and> fst (writeFile p c w) = Inl e"
  then have eq: "pushFile s now file tp w
      = w\<lparr>trace := trace w @ [ConsoleLog tp, VaultRead (file_path file), FsWrite p c,
            NoticeShown (PUSH_ERROR_PREFIX @ err_message e)]\<rparr>"
    using pushFile_write_fails by blast
  show "new_events w (pushFile s now file tp w)
      = [ConsoleLog tp, VaultRead (file_path file), FsWrite p c,
         NoticeShown (PUSH_ERROR_PREFIX @ err_message e)]"
    by (simp add: eq new_events_def)
qed

lemma vault_of_my_note: "vault_of content (file_path my_note) = Inr content"
  by (simp add: vault_of_def my_note_def)

lemma vault_of_other:
  "vault_of content (js ''notes/Other.md'')
     = Inl \<lparr>err_code = Some (js ''ENOENT''), err_message = js ''ENOENT: no such file''\<rparr>"
  by (simp add: vault_of_def js_def)

lemma push_target_plain:
  "push_target (settings_of folders False) now file tp w = Inr tp"
  by (simp add: push_target_def settings_of_def)

lemma writeFile_ro:
  "fst (writeFile (js ''/ro/My Note.md'') c world_out)
     = Inl \<lparr>err_code = Some (js ''EACCES''), err_message = js ''EACCES: permission denied''\<rparr>"
  by (simp add: writeFile_def Let_def world_out_faults)

lemma writeFile_out:
  "fst (writeFile (js ''/out/My Note.md'') c world_out) = Inr ()"
  "fst (writeFile (js ''/out/2024-03-01-My-Note.md'') c world_out) = Inr ()"
  by (simp_all add: writeFile_def Let_def world_out_faults log_event_def world_out_entries)

theorem push_error_reporting_witness:
  "vault world_out (js ''notes/Other.md'')
     = Inl \<lparr>err_code = Some (js ''ENOENT''), err_message = js ''ENOENT: no such file''\<rparr>
   \<and> new_events world_out
        (pushFile (settings_of [js ''/out''] False) date_2024_03_01
           \<lparr>file_path = js ''notes/Other.md'', file_name = js ''Other.md''\<rparr>
           (js ''/out/Other.md'') world_out)
       = [ConsoleLog (js ''/out/Other.md''), VaultRead (js ''notes/Other.md''),
          NoticeShown (PUSH_ERROR_PREFIX @ js ''ENOENT: no such file'')]
   \<and> vault world_out (file_path my_note) = Inr (js ''hello'')
   \<and> push_target (settings_of [js ''/ro''] False) date_2024_03_01 my_note
        (js ''/ro/My Note.md'') world_out = Inr (js ''/ro/My Note.md'')
   \<and> fst (writeFile (js ''/ro/My Note.md'') (js ''hello'') world_out)
       = Inl \<lparr>err_code = Some (js ''EACCES''), err_message = js ''EACCES: permission denied''\<rparr>
   \<and> new_events world_out
        (pushFile (settings_of [js ''/ro''] False) date_2024_03_01 my_note
           (js ''/ro/My Note.md'') world_out)
       = [ConsoleLog (js ''/ro/My Note.md''), VaultRead (file_path my_note),
          FsWrite (js ''/ro/My Note.md'') (js ''hello''),
          NoticeShown (PUSH_ERROR_PREFIX @ js ''EACCES: permission denied'')]"
proof -
  have r: "vault world_out (js ''notes/Other.md'')
     = Inl \<lparr>err_code = Some (js ''ENOENT''), err_message = js ''ENOENT: no such file''\<rparr>"
    by (simp add: world_out_fields vault_of_other)
  have v: "vault world_out (file_path my_note) = Inr (js ''hello'')"
    by (simp add: world_out_fields vault_of_my_note)
  have t: "push_target (settings_of [js ''/ro''] False) date_2024_03_01 my_note
        (js ''/ro/My Note.md'') world_out = Inr (js ''/ro/My Note.md'')"
    by (rule push_target_plain)
  show ?thesis
    using r v t writeFile_ro [of "js ''hello''"]
      push_error_reporting [of world_out
        "\<lparr>file_path = js ''notes/Other.md'', file_name = js ''Other.md''\<rparr>"
        "\<lparr>err_code = Some (js ''ENOENT''), err_message = js ''ENOENT: no such file''\<rparr>"
        "settings_of [js ''/out''] False" date_2024_03_01 "js ''/out/Other.md''"]
      push_error_reporting [of world_out my_note
        "\<lparr>err_code = Some (js ''EACCES''), err_message = js ''EACCES: permission denied''\<rparr>"
        "settings_of [js ''/ro''] False" date_2024_03_01 "js ''/ro/My Note.md''"
        "js ''hello''" "js ''/ro/My Note.md''"]
    by simp
qed

section \<open>Overwriting\<close>

text \<open>
  C6: a push whose read and write succeed, followed by a second push of the same document
  (edited or not in between) that resolves to the same target path, succeeds both times:
  each ends with the success notice, and after the second the file system is the one
  before the first with the target holding exactly the second content; no other path
  changes, so nothing is merged or kept as a backup, and nothing is asked of the user.
\<close>

theorem second_push_overwrites:
  assumes "vault w (file_path file) = Inr c1"
    and "push_target s now file tp w = Inr p"
    and "fst (writeFile p c1 w) = Inr ()"
    and "v2 (file_path file) = Inr c2"
    and "push_target s now' file tp' w = Inr p"
  shows "notices (new_events w (pushFile s now file tp w)) = [PUSH_SUCCESS_PREFIX @ p]
    \<and> fs_entries (pushFile s now file tp w) = (fs_entries w)(p \<mapsto> File c1)
    \<and> notices (new_events ((pushFile s now file tp w)\<lparr>vault := v2\<rparr>)
          (pushFile s now' file tp' ((pushFile s now file tp w)\<lparr>vault := v2\<rparr>)))
        = [PUSH_SUCCESS_PREFIX @ p]
    \<and> fs_entries (pushFile s now' file tp' ((pushFile s now file tp w)\<lparr>vault := v2\<rparr>))
        = (fs_entries w)(p \<mapsto> File c2)"
proof -
  let ?w1 = "pushFile s now file tp w"
  let ?w1' = "?w1\<lparr>vault := v2\<rparr>"
  have w1: "?w1 = w\<lparr>trace := trace w @ [ConsoleLog tp, VaultRead (file_path file), FsWrite p c1,
          NoticeShown (PUSH_SUCCESS_PREFIX @ p)],
        fs_entries := (fs_entries w)(p \<mapsto> File c1)\<rparr>"
    using assms(1-3) by (rule pushFile_succeeds)
  have nf: "write_fault w p = None" and nd: "fs_entries w p \<noteq> Some Dir"
    using assms(3) by (auto simp: writeFile_def Let_def split: option.splits entry.splits)
  have r2: "vault ?w1' (file_path file) = Inr c2"
    using assms(4) by simp
  have "push_target s now' file tp' ?w1' = push_target s now' file tp' w"
    by (simp add: push_target_def w1)
  then have t2: "push_target s now' file tp' ?w1' = Inr p"
    using assms(5) by simp
  have ok2: "fst (writeFile p c2 ?w1') = Inr ()"
    using nf by (simp add: writeFile_def Let_def w1)
  have w2: "pushFile s now' file tp' ?w1'
      = ?w1'\<lparr>trace := trace ?w1' @ [ConsoleLog tp', VaultRead (file_path file), FsWrite p c2,
          NoticeShown (PUSH_SUCCESS_PREFIX @ p)],
        fs_entries := (fs_entries ?w1')(p \<mapsto> File c2)\<rparr>"
    using r2 t2 ok2 by (rule pushFile_succeeds)
  have a: "notices (new_events w ?w1) = [PUSH_SUCCESS_PREFIX @ p]"
    by (simp add: w1 new_events_def notices_def)
  have b: "fs_entries ?w1 = (fs_entries w)(p \<mapsto> File c1)"
    by (simp add: w1)
  have c: "notices (new_events ?w1' (pushFile s now' file tp' ?w1')) = [PUSH_SUCCESS_PREFIX @ p]"
    by (simp only: w2) (simp add: new_events_def notices_def)
  have d: "fs_entries (pushFile s now' file tp' ?w1') = (fs_entries w)(p \<mapsto> File c2)"
    by (simp only: w2) (simp add: w1)
  show ?thesis
    using a b c d by blast
qed

lemma convert_My_Note:
  "convertToJekyllFileName date_2024_03_01 (js ''My Note.md'') = js ''2024-03-01-My-Note.md''"
  unfolding convert_eq iso_date_2024_03_01 spec_title_My_Note by (simp add: js_def)

lemma push_target_dated_My_Note:
  "push_target (settings_of [js ''/out''] True) date_2024_03_01 my_note tp world_out
     = Inr (js ''/out/2024-03-01-My-Note.md'')"
proof -
  have "file_name my_note = js ''My Note.md''"
    by (simp add: my_note_def)
  then show ?thesis
    unfolding push_target_def settings_of_def folder0_def world_out_fields join_resolve_def
    by (simp add: convert_My_Note) (simp add: js_def)
qed

theorem second_push_overwrites_witness:
  "vault world_out (file_path my_note) = Inr (js ''hello'')
   \<and> push_target (settings_of [js ''/out''] True) date_2024_03_01 my_note
        (js ''/out/My Note.md'') world_out = Inr (js ''/out/2024-03-01-My-Note.md'')
   \<and> fst (writeFile (js ''/out/2024-03-01-My-Note.md'') (js ''hello'') world_out) = Inr ()
   \<and> vault_of (js ''hello again'') (file_path my_note) = Inr (js ''hello again'')
   \<and> fs_entries
        (pushFile (settings_of [js ''/out''] True) date_2024_03_01 my_note (js ''/out/My Note.md'')
           ((pushFile (settings_of [js ''/out''] True) date_2024_03_01 my_note
               (js ''/out/My Note.md'') world_out)\<lparr>vault := vault_of (js ''hello again'')\<rparr>))
        (js ''/out/2024-03-01-My-Note.md'')
       = Some (File (js ''hello again''))
   \<and> fs_entries
        (pushFile (settings_of [js ''/out''] True) date_2024_03_01 my_note
               (js ''/out/My Note.md'') world_out)
        (js ''/out/2024-03-01-My-Note.md'')
       = Some (File (js ''hello''))"
proof -
  have r: "vault world_out (file_path my_note) = Inr (js ''hello'')"
    by (simp add: world_out_fields vault_of_my_note)
  have t: "push_target (settings_of [js ''/out''] True) date_2024_03_01 my_note
        (js ''/out/My Note.md'') world_out = Inr (js ''/out/2024-03-01-My-Note.md'')"
    by (rule push_target_dated_My_Note)
  have k: "fst (writeFile (js ''/out/2024-03-01-My-Note.md'') (js ''hello'') world_out) = Inr ()"
    by (rule writeFile_out)
  have r2: "vault_of (js ''hello again'') (file_path my_note) = Inr (js ''hello again'')"
    by (rule vault_of_my_note)
  show ?thesis
    using r t k r2
      second_push_overwrites [of world_out my_note "js ''hello''" "settings_of [js ''/out''] True"
        date_2024_03_01 "js ''/out/My Note.md''" "js ''/out/2024-03-01-My-Note.md''"
        "vault_of (js ''hello again'')" "js ''hello again''" date_2024_03_01
        "js ''/out/My Note.md''"]
    by simp
qed

section \<open>The plain mode\<close>

lemma written_paths_simps:
  "written_paths [] = []"
  "written_paths (ConsoleLog x # es) = written_paths es"
  "written_paths (VaultRead x # es) = written_paths es"
  "written_paths (FsWrite p c # es) = p # written_paths es"
  "written_paths (NoticeShown x # es) = written_paths es"
  "written_paths (ModalOpened x # es) = written_paths es"
  "written_paths (Uncaught e # es) = written_paths es"
  by (simp_all add: written_paths_def)

lemma pushFile_plain_written:
  assumes "\<not> convertToJekyllFormat s"
  shows "written_paths (new_events w (pushFile s now file tp w))
    = (case vault w (file_path file) of Inl _ \<Rightarrow> [] | Inr _ \<Rightarrow> [tp])"
proof (cases "vault w (file_path file)")
  case (Inl e)
  then show ?thesis
    by (simp add: pushFile_read_fails [OF Inl] new_events_def written_paths_simps)
next
  case (Inr c)
  have t: "push_target s now file tp w = Inr tp"
    using assms by (simp add: push_target_def)
  show ?thesis
  proof (cases "fst (writeFile tp c w)")
    case (Inl e)
    show ?thesis
      by (simp add: pushFile_write_fails [OF Inr t Inl] new_events_def written_paths_simps Inr)
  next
    case u: (Inr u)
    show ?thesis
      by (simp add: pushFile_succeeds [OF Inr t u] new_events_def written_paths_simps Inr)
  qed
qed

text \<open>
  C2: when the dated mode is off, the push writes to the path it was handed and the date
  has no influence, the transform being out of the computation; the command and the file
  menu hand it the path resolved from the first folder and the source file name as it is,
  so that, the folder existing, what they write is written to exactly that path.
\<close>

theorem identity_law:
  assumes "\<not> convertToJekyllFormat s"
  shows "push_target s now file tp w = Inr tp
    \<and> pushFile s now file tp w = pushFile s now' file tp w
    \<and> written_paths (new_events w (pushFile s now file tp w))
        = (case vault w (file_path file) of Inl _ \<Rightarrow> [] | Inr _ \<Rightarrow> [tp])
    \<and> (path_resolve w (folder0 s) (file_name file) = Inr tp \<longrightarrow>
         written_paths (new_events w (push_md_command s now (Some file) w))
           = (if exists_path (folder0 s) w
              then (case vault w (file_path file) of Inl _ \<Rightarrow> [] | Inr _ \<Rightarrow> [tp])
              else [])
         \<and> written_paths (new_events w (file_menu_push s now file w))
           = (if exists_path (folder0 s) w
              then (case vault w (file_path file) of Inl _ \<Rightarrow> [] | Inr _ \<Rightarrow> [tp])
              else [])
         \<and> (exists_path (folder0 s) w \<longrightarrow>
              push_md_command s now (Some file) w = pushFile s now file tp w
              \<and> file_menu_push s now file w = pushFile s now file tp w))"
proof -
  have a: "push_target s now file tp w = Inr tp"
    using assms by (simp add: push_target_def)
  have eq: "push_target s now file tp = push_target s now' file tp"
    using assms by (simp add: push_target_def fun_eq_iff)
  have b: "pushFile s now file tp w = pushFile s now' file tp w"
    unfolding pushFile_def eq by (rule refl)
  have c: "written_paths (new_events w (pushFile s now file tp w))
        = (case vault w (file_path file) of Inl _ \<Rightarrow> [] | Inr _ \<Rightarrow> [tp])"
    using assms by (rule pushFile_plain_written)
  have d: "written_paths (new_events w (push_md_command s now (Some file) w))
           = (if exists_path (folder0 s) w
              then (case vault w (file_path file) of Inl _ \<Rightarrow> [] | Inr _ \<Rightarrow> [tp])
              else [])
         \<and> written_paths (new_events w (file_menu_push s now file w))
           = (if exists_path (folder0 s) w
              then (case vault w (file_path file) of Inl _ \<Rightarrow> [] | Inr _ \<Rightarrow> [tp])
              else [])
         \<and> (exists_path (folder0 s) w \<longrightarrow>
              push_md_command s now (Some file) w = pushFile s now file tp w
              \<and> file_menu_push s now file w = pushFile s now file tp w)"
    if r: "path_resolve w (folder0 s) (file_name file) = Inr tp"
  proof (cases "exists_path (folder0 s) w")
    case True
    have p: "push_md_command s now (Some file) w = pushFile s now file tp w"
      using True r by (simp add: push_md_command_def isProjectPathValid_eq)
    have m: "file_menu_push s now file w = pushFile s now file tp w"
      using True r by (simp add: file_menu_push_def isProjectPathValid_eq)
    show ?thesis
      using True c by (simp only: p m if_True simp_thms)
  next
    case False
    have p: "push_md_command s now (Some file) w
        = w\<lparr>trace := trace w @ [ModalOpened MISSING_FOLDER_TEXT]\<rparr>"
      using False by (simp add: push_md_command_def isProjectPathValid_eq)
    have m: "file_menu_push s now file w
        = w\<lparr>trace := trace w @ [ModalOpened MISSING_FOLDER_TEXT]\<rparr>"
      using False by (simp add: file_menu_push_def isProjectPathValid_eq)
    show ?thesis
      using False by (simp add: p m new_events_def written_paths_simps)
  qed
  show ?thesis
    using a b c d by blast
qed

theorem identity_law_witness:
  "\<not> convertToJekyllFormat (settings_of [js ''/out''] False)
   \<and> path_resolve world_out (folder0 (settings_of [js ''/out''] False)) (file_name my_note)
       = Inr (js ''/out/My Note.md'')
   \<and> exists_path (folder0 (settings_of [js ''/out''] False)) world_out
   \<and> written_paths (new_events world_out
        (pushFile (settings_of [js ''/out''] False) date_2024_03_01 my_note
           (js ''/out/My Note.md'') world_out)) = [js ''/out/My Note.md'']
   \<and> written_paths (new_events world_out
        (push_md_command (settings_of [js ''/out''] False) date_2024_03_01 (Some my_note)
           world_out)) = [js ''/out/My Note.md'']
   \<and> written_paths (new_events world_out
        (file_menu_push (settings_of [js ''/out''] False) date_2024_03_01 my_note
           world_out)) = [js ''/out/My Note.md'']"
proof -
  have f: "\<not> convertToJekyllFormat (settings_of [js ''/out''] False)"
    by (simp add: settings_of_def)
  have r: "path_resolve world_out (folder0 (settings_of [js ''/out''] False)) (file_name my_note)
       = Inr (js ''/out/My Note.md'')"
    by (simp add: world_out_fields folder0_def settings_of_def join_resolve_def my_note_def js_def)
  have e: "exists_path (folder0 (settings_of [js ''/out''] False)) world_out"
    by (simp add: exists_path_def folder0_def settings_of_def world_out_entries)
  have v: "vault world_out (file_path my_note) = Inr (js ''hello'')"
    by (simp add: world_out_fields vault_of_my_note)
  have "written_paths (new_events world_out
        (pushFile (settings_of [js ''/out''] False) date_2024_03_01 my_note
           (js ''/out/My Note.md'') world_out))
        = (case vault world_out (file_path my_note) of Inl _ \<Rightarrow> []
           | Inr _ \<Rightarrow> [js ''/out/My Note.md''])
      \<and> written_paths (new_events world_out
        (push_md_command (settings_of [js ''/out''] False) date_2024_03_01 (Some my_note)
           world_out))
        = (if exists_path (folder0 (settings_of [js ''/out''] False)) world_out
           then (case vault world_out (file_path my_note) of Inl _ \<Rightarrow> []
                 | Inr _ \<Rightarrow> [js ''/out/My Note.md''])
           else [])
      \<and> written_paths (new_events world_out
        (file_menu_push (settings_of [js ''/out''] False) date_2024_03_01 my_note
           world_out))
        = (if exists_path (folder0 (settings_of [js ''/out''] False)) world_out
           then (case vault world_out (file_path my_note) of Inl _ \<Rightarrow> []
                 | Inr _ \<Rightarrow> [js ''/out/My Note.md''])
           else [])"
    using r
      identity_law [OF f, of date_2024_03_01 my_note "js ''/out/My Note.md''" world_out
        date_2024_01_05]
    by blast
  then show ?thesis
    using f r e v by simp
qed

text \<open>
  The end-to-end example of the specification: \<^verbatim>\<open>My Note.md\<close> with content \<^verbatim>\<open>hello\<close>, pushed
  to \<^verbatim>\<open>/out\<close> in the plain mode, leaves \<^verbatim>\<open>/out/My Note.md\<close> holding \<^verbatim>\<open>hello\<close>.
\<close>

lemma end_to_end_plain:
  "fs_entries (push_md_command (settings_of [js ''/out''] False) date_2024_03_01 (Some my_note)
      world_out) (js ''/out/My Note.md'') = Some (File (js ''hello''))"
proof -
  have r: "path_resolve world_out (folder0 (settings_of [js ''/out''] False)) (file_name my_note)
       = Inr (js ''/out/My Note.md'')"
    by (simp add: world_out_fields folder0_def settings_of_def join_resolve_def my_note_def js_def)
  have v: "vault world_out (file_path my_note) = Inr (js ''hello'')"
    by (simp add: world_out_fields vault_of_my_note)
  have e: "exists_path (folder0 (settings_of [js ''/out''] False)) world_out"
    by (simp add: exists_path_def folder0_def settings_of_def world_out_entries)
  have "push_md_command (settings_of [js ''/out''] False) date_2024_03_01 (Some my_note) world_out
      = pushFile (settings_of [js ''/out''] False) date_2024_03_01 my_note (js ''/out/My Note.md'')
          world_out"
    using r e by (simp add: push_md_command_def isProjectPathValid_eq)
  then show ?thesis
    using pushFile_succeeds [OF v push_target_plain writeFile_out(1)] by simp
qed

end
